theory Spec2Isabelle
  imports Main "HOL-Library.AList" "HOL-Library.Sublist" "HOL-Library.Word"
begin

section \<open>The file system seen by the script\<close>

text \<open>
  The script works on one file system through two path strings. A path is modelled as
  the list of its components below the root of the file system, so the source root and
  the replica root may be apart, equal, or one inside the other. A tree entry is a file
  (its bytes, and whether the process may open it for reading and for writing) or a
  directory (its entries in listing order, and whether the process may list it, create
  and delete entries in it, and search it, the permissions \<open>r\<close>, \<open>w\<close> and \<open>x\<close>).
  There are no symbolic links and no special files, and nothing else changes the file
  system while the script runs.
\<close>

type_synonym byte = "8 word"
type_synonym name = string
type_synonym path = "name list"

datatype node =
    File (readable: bool) (writable: bool) (content: "byte list")
  | Dir (listable: bool) (alterable: bool) (searchable: bool) (entries: "(name \<times> node) list")

text \<open>
  The exceptions. The first six are subclasses of \<open>OSError\<close> and are the ones the
  modelled system calls raise. \<open>ValueError\<close> is an \<open>Exception\<close> outside \<open>OSError\<close> and
  \<open>KeyboardInterrupt\<close> is outside \<open>Exception\<close>: they are what the handlers
  \<open>except OSError\<close> and \<open>except Exception\<close> of the script let through.
\<close>

datatype exn =
    FileNotFoundError
  | NotADirectoryError
  | IsADirectoryError
  | FileExistsError
  | PermissionError
  | SameFileError
  | ValueError
  | KeyboardInterrupt

fun is_OSError :: "exn \<Rightarrow> bool" where
  "is_OSError ValueError = False"
| "is_OSError KeyboardInterrupt = False"
| "is_OSError e = True"

fun is_Exception :: "exn \<Rightarrow> bool" where
  "is_Exception KeyboardInterrupt = False"
| "is_Exception e = True"

text \<open>What a path leads to, permissions aside.\<close>

fun lookup :: "node \<Rightarrow> path \<Rightarrow> node option" where
  "lookup n [] = Some n"
| "lookup (File r w c) (x # xs) = None"
| "lookup (Dir r w s es) (x # xs) = (case map_of es x of None \<Rightarrow> None | Some c \<Rightarrow> lookup c xs)"

text \<open>
  What the process gets when it resolves a path (\<open>stat\<close>): every directory on the way
  must be searchable (\<open>EACCES\<close> otherwise), a file on the way gives \<open>ENOTDIR\<close>, a missing
  name \<open>ENOENT\<close>.
\<close>

fun resolve :: "node \<Rightarrow> path \<Rightarrow> exn + node" where
  "resolve n [] = Inr n"
| "resolve (File r w c) (x # xs) = Inl NotADirectoryError"
| "resolve (Dir r w s es) (x # xs) =
     (if \<not> s then Inl PermissionError
      else case map_of es x of None \<Rightarrow> Inl FileNotFoundError | Some c \<Rightarrow> resolve c xs)"

text \<open>\<open>os.path.exists\<close> and \<open>os.path.isdir\<close> answer \<open>False\<close> when \<open>stat\<close> fails.\<close>

definition path_exists :: "node \<Rightarrow> path \<Rightarrow> bool" where
  "path_exists fs p = (case resolve fs p of Inr n \<Rightarrow> True | Inl e \<Rightarrow> False)"

definition path_isdir :: "node \<Rightarrow> path \<Rightarrow> bool" where
  "path_isdir fs p = (case resolve fs p of Inr (Dir r w s es) \<Rightarrow> True | _ \<Rightarrow> False)"

definition dirname :: "path \<Rightarrow> path" where
  "dirname p = butlast p"

definition basename :: "path \<Rightarrow> path" where
  "basename p = (if p = [] then [] else [last p])"

text \<open>Apply \<open>f\<close> to the entry list of the directory at a path; nothing changes if there is none.\<close>

fun modify_dir :: "path \<Rightarrow> ((name \<times> node) list \<Rightarrow> (name \<times> node) list) \<Rightarrow> node \<Rightarrow> node" where
  "modify_dir p f (File r w c) = File r w c"
| "modify_dir [] f (Dir r w s es) = Dir r w s (f es)"
| "modify_dir (x # xs) f (Dir r w s es) =
     (case map_of es x of
        None \<Rightarrow> Dir r w s es
      | Some c \<Rightarrow> Dir r w s (AList.update x (modify_dir xs f c) es))"

text \<open>
  \<open>os.mkdir\<close>: the parent must be a searchable directory; an existing name gives
  \<open>EEXIST\<close>; a new entry needs write permission on the parent. The new directory is
  empty and open to the process.
\<close>

definition mkdir :: "node \<Rightarrow> path \<Rightarrow> exn + node" where
  "mkdir fs p =
     (if p = [] then Inl FileExistsError
      else case resolve fs (dirname p) of
             Inl e \<Rightarrow> Inl e
           | Inr (File r w c) \<Rightarrow> Inl NotADirectoryError
           | Inr (Dir r w s es) \<Rightarrow>
               if \<not> s then Inl PermissionError
               else (case map_of es (last p) of
                       Some n \<Rightarrow> Inl FileExistsError
                     | None \<Rightarrow>
                         if w then Inr (modify_dir (dirname p)
                                         (AList.update (last p) (Dir True True True [])) fs)
                         else Inl PermissionError))"

text \<open>
  \<open>os.makedirs(name, exist_ok=True)\<close>: create the missing parents first (a
  \<open>FileExistsError\<close> from that recursive call is swallowed), then the leaf; an error of
  the leaf's \<open>mkdir\<close> is dropped when the leaf is a directory already.
\<close>

function makedirs :: "node \<Rightarrow> path \<Rightarrow> exn + node" where
  "makedirs fs p =
     (case (if p \<noteq> [] \<and> \<not> path_exists fs (dirname p)
            then (case makedirs fs (dirname p) of
                    Inl e \<Rightarrow> if e = FileExistsError then Inr fs else Inl e
                  | Inr fs' \<Rightarrow> Inr fs')
            else Inr fs) of
        Inl e \<Rightarrow> Inl e
      | Inr fs1 \<Rightarrow>
          (case mkdir fs1 p of
             Inr fs2 \<Rightarrow> Inr fs2
           | Inl e \<Rightarrow> if path_isdir fs1 p then Inr fs1 else Inl e))"
  by pat_completeness auto
termination
  by (relation "measure (\<lambda>(fs, p). length p)") (auto simp: dirname_def)

declare makedirs.simps [simp del]

text \<open>\<open>open(path, "rb")\<close> and reading the file to its end.\<close>

definition open_rb :: "node \<Rightarrow> path \<Rightarrow> exn + byte list" where
  "open_rb fs p =
     (case resolve fs p of
        Inl e \<Rightarrow> Inl e
      | Inr (Dir r w s es) \<Rightarrow> Inl IsADirectoryError
      | Inr (File r w c) \<Rightarrow> if r then Inr c else Inl PermissionError)"

text \<open>
  Open for writing, truncate, write the bytes, set the mode (\<open>copyfile\<close> then
  \<open>copystat\<close>): an existing file must be writable, a new one needs write permission on
  its directory.
\<close>

definition write_file :: "node \<Rightarrow> path \<Rightarrow> bool \<Rightarrow> bool \<Rightarrow> byte list \<Rightarrow> exn + node" where
  "write_file fs p r w c =
     (if p = [] then Inl IsADirectoryError
      else case resolve fs (dirname p) of
             Inl e \<Rightarrow> Inl e
           | Inr (File r' w' c') \<Rightarrow> Inl NotADirectoryError
           | Inr (Dir dr dw ds es) \<Rightarrow>
               if \<not> ds then Inl PermissionError
               else (case map_of es (last p) of
                       Some (Dir r' w' s' es') \<Rightarrow> Inl IsADirectoryError
                     | Some (File r' w' c') \<Rightarrow>
                         if w' then Inr (modify_dir (dirname p)
                                          (AList.update (last p) (File r w c)) fs)
                         else Inl PermissionError
                     | None \<Rightarrow>
                         if dw then Inr (modify_dir (dirname p)
                                          (AList.update (last p) (File r w c)) fs)
                         else Inl PermissionError))"

text \<open>
  \<open>shutil.copy2(src, dst)\<close>: a destination that is a directory receives the file under
  the source's base name; copying a file onto itself is refused; the source is opened
  before the destination; the copy gets the source's mode.
\<close>

definition copy2 :: "node \<Rightarrow> path \<Rightarrow> path \<Rightarrow> exn + node" where
  "copy2 fs src dst =
     (let dst' = (if path_isdir fs dst then dst @ basename src else dst)
      in if dst' = src \<and> path_exists fs src then Inl SameFileError
         else case resolve fs src of
                Inl e \<Rightarrow> Inl e
              | Inr (Dir r w s es) \<Rightarrow> Inl IsADirectoryError
              | Inr (File r w c) \<Rightarrow>
                  if r then write_file fs dst' r w c else Inl PermissionError)"

text \<open>\<open>os.remove\<close>: search and write permission on the directory that holds the file.\<close>

definition os_remove :: "node \<Rightarrow> path \<Rightarrow> exn + node" where
  "os_remove fs p =
     (if p = [] then Inl IsADirectoryError
      else case resolve fs (dirname p) of
             Inl e \<Rightarrow> Inl e
           | Inr (File r w c) \<Rightarrow> Inl NotADirectoryError
           | Inr (Dir r w s es) \<Rightarrow>
               if \<not> s then Inl PermissionError
               else (case map_of es (last p) of
                       None \<Rightarrow> Inl FileNotFoundError
                     | Some (Dir r' w' s' es') \<Rightarrow>
                         if w then Inl IsADirectoryError else Inl PermissionError
                     | Some (File r' w' c') \<Rightarrow>
                         if w then Inr (modify_dir (dirname p) (AList.delete (last p)) fs)
                         else Inl PermissionError))"

text \<open>
  The size of a tree, the measure of the recursions below.
\<close>

fun tsize :: "node \<Rightarrow> nat" where
  "tsize (File r w c) = 1"
| "tsize (Dir r w s es) = Suc (sum_list (map (\<lambda>e. Suc (tsize (snd e))) es))"

lemma sum_delete_le:
  "(\<Sum>e\<leftarrow>AList.delete k es. Suc (tsize (snd e))) \<le> (\<Sum>e\<leftarrow>es. Suc (tsize (snd e)))"
  by (induction es) auto

text \<open>
  \<open>shutil.rmtree\<close> empties a directory entry by entry, in listing order, and stops at
  the first error (its \<open>onerror\<close> re-raises): what was deleted before stays deleted.
  \<open>rm_contents\<close> is what it does below a directory it has opened: the directory must
  be listable; with entries in it, it must be searchable, and writable for each
  \<open>unlink\<close> and \<open>rmdir\<close>. The node returned is what is left.
\<close>

function rm_contents :: "node \<Rightarrow> exn option \<times> node"
  and rm_entries :: "bool \<Rightarrow> (name \<times> node) list \<Rightarrow> exn option \<times> (name \<times> node) list" where
  "rm_contents (File r w c) = (Some (if r then NotADirectoryError else PermissionError), File r w c)"
| "rm_contents (Dir r w s es) =
     (if \<not> r then (Some PermissionError, Dir r w s es)
      else if es = [] then (None, Dir r w s [])
      else if \<not> s then (Some PermissionError, Dir r w s es)
      else (case rm_entries w es of (e, es') \<Rightarrow> (e, Dir r w s es')))"
| "rm_entries w [] = (None, [])"
| "rm_entries w ((n, File r' w' c') # es) =
     (if w then rm_entries w (AList.delete n es)
      else (Some PermissionError, (n, File r' w' c') # es))"
| "rm_entries w ((n, Dir r' w' s' es') # es) =
     (case rm_contents (Dir r' w' s' es') of
        (Some e, c') \<Rightarrow> (Some e, (n, c') # es)
      | (None, c') \<Rightarrow>
          if w then rm_entries w (AList.delete n es)
          else (Some PermissionError, (n, c') # es))"
  by pat_completeness auto
termination
proof (relation "measure (\<lambda>x. case x of
          Inl n \<Rightarrow> tsize n
        | Inr (w, es) \<Rightarrow> sum_list (map (\<lambda>e. Suc (tsize (snd e))) es))", goal_cases)
  case 1
  then show ?case by simp
next
  case (2 r w s es)
  then show ?case by simp
next
  case (3 w n r' w' c' es)
  then show ?case using sum_delete_le[of n es] by simp
next
  case (4 w n r' w' s' es' es)
  then show ?case by simp
next
  case (5 w n r' w' s' es' es x c')
  then show ?case using sum_delete_le[of n es] by simp
qed

text \<open>
  \<open>shutil.rmtree(path)\<close>: empty the directory, then \<open>rmdir\<close> it. The file system that
  is returned with an exception is the one the failed call leaves.
\<close>

definition rmtree :: "node \<Rightarrow> path \<Rightarrow> exn option \<times> node" where
  "rmtree fs p =
     (if p = [] then (Some PermissionError, fs)
      else case resolve fs (dirname p) of
             Inl e \<Rightarrow> (Some e, fs)
           | Inr (File r w c) \<Rightarrow> (Some NotADirectoryError, fs)
           | Inr (Dir r w s es) \<Rightarrow>
               if \<not> s then (Some PermissionError, fs)
               else (case map_of es (last p) of
                       None \<Rightarrow> (Some FileNotFoundError, fs)
                     | Some c \<Rightarrow>
                         (case rm_contents c of
                            (Some e, c') \<Rightarrow>
                              (Some e, modify_dir (dirname p) (AList.update (last p) c') fs)
                          | (None, c') \<Rightarrow>
                              if w then (None, modify_dir (dirname p) (AList.delete (last p)) fs)
                              else (Some PermissionError,
                                    modify_dir (dirname p) (AList.update (last p) c') fs))))"

text \<open>
  One directory listing as \<open>os.walk\<close> splits it: the names that are directories and the
  others. Every name is listed once. Listing needs read permission on the directory.
\<close>

definition entry_isdir :: "(name \<times> node) list \<Rightarrow> name \<Rightarrow> bool" where
  "entry_isdir es n = (case map_of es n of Some (Dir r w s es') \<Rightarrow> True | _ \<Rightarrow> False)"

definition scandir :: "node \<Rightarrow> path \<Rightarrow> exn + (name list \<times> name list)" where
  "scandir fs dirpath =
     (case resolve fs dirpath of
        Inl e \<Rightarrow> Inl e
      | Inr (File r w c) \<Rightarrow> Inl NotADirectoryError
      | Inr (Dir r w s es) \<Rightarrow>
          if \<not> r then Inl PermissionError
          else Inr (filter (entry_isdir es) (remdups (map fst es)),
                    filter (\<lambda>n. \<not> entry_isdir es n) (remdups (map fst es))))"


section \<open>Logging and the state of one pass\<close>

datatype level = INFO | ERROR

text \<open>One constructor for each message the script formats.\<close>

datatype message =
    Starting_synchronization
  | Created_directory string path
  | Failed_to_create_directories path path exn
  | Failed_to_create_directory path name exn
  | Copied_file path path
  | Deleted_directory path
  | Deleted_file path
  | Failed_to_delete path exn
  | Error_during_synchronization exn
  | No_changes_made
  | Synchronization_completed
  | Failed_to_calculate_MD5 path exn

type_synonym log_record = "level \<times> message"

text \<open>
  The file system, the log written so far and the local variable \<open>changes_made\<close> of
  \<open>sync_folders\<close>.
\<close>

record state =
  tree :: node
  log_records :: "log_record list"
  changes_made :: bool

definition log_info :: "message \<Rightarrow> state \<Rightarrow> state" where
  "log_info m st = st\<lparr>log_records := log_records st @ [(INFO, m)]\<rparr>"

definition log_error :: "message \<Rightarrow> state \<Rightarrow> state" where
  "log_error m st = st\<lparr>log_records := log_records st @ [(ERROR, m)]\<rparr>"

section \<open>The fingerprinter\<close>

text \<open>
  The hash object of \<open>hashlib\<close> is not part of the repository; it is a parameter: a
  fresh accumulator, the \<open>update\<close> method and \<open>hexdigest\<close>.
\<close>

record 'h hasher =
  h_new :: 'h
  h_update :: "'h \<Rightarrow> byte list \<Rightarrow> 'h"
  h_hexdigest :: "'h \<Rightarrow> string"

text \<open>
  \<open>for chunk in iter(lambda: f.read(4096), b""): hash_md5.update(chunk)\<close>, on the bytes
  of the file that are still unread.
\<close>

function read_chunks :: "('h \<Rightarrow> byte list \<Rightarrow> 'h) \<Rightarrow> 'h \<Rightarrow> byte list \<Rightarrow> 'h" where
  "read_chunks upd h unread =
     (let chunk = take 4096 unread
      in if chunk = [] then h else read_chunks upd (upd h chunk) (drop 4096 unread))"
  by pat_completeness auto
termination
  by (relation "measure (\<lambda>(upd, h, unread). length unread)") auto

declare read_chunks.simps [simp del]

text \<open>The body of the \<open>try\<close> block of \<open>calculate_md5\<close>: the digest, or the exception raised.\<close>

definition calculate_md5_try :: "'h hasher \<Rightarrow> node \<Rightarrow> path \<Rightarrow> exn + string" where
  "calculate_md5_try H fs file_path =
     (case open_rb fs file_path of
        Inl e \<Rightarrow> Inl e
      | Inr bytes \<Rightarrow> Inr (h_hexdigest H (read_chunks (h_update H) (h_new H) bytes)))"

text \<open>
  The function with its handler \<open>except Exception\<close>: the value returned (a digest or
  \<open>None\<close>) on the right, an exception that the handler does not catch on the left.
\<close>

definition calculate_md5 :: "'h hasher \<Rightarrow> path \<Rightarrow> state \<Rightarrow> (exn + string option) \<times> state" where
  "calculate_md5 H file_path st =
     (case calculate_md5_try H (tree st) file_path of
        Inr d \<Rightarrow> (Inr (Some d), st)
      | Inl e \<Rightarrow>
          if is_Exception e
          then (Inr None, log_error (Failed_to_calculate_MD5 file_path e) st)
          else (Inl e, st))"

section \<open>The reconciler\<close>

text \<open>
  A statement that may raise gives back the exception that leaves it, if any, and the
  state it leaves.
\<close>

text \<open>\<open>os.path.relpath(root, start)\<close> for a \<open>root\<close> that \<open>os.walk(start)\<close> yields.\<close>

definition relpath :: "path \<Rightarrow> path \<Rightarrow> path" where
  "relpath root start = drop (length start) root"

subsection \<open>Pass 1: from the source to the replica\<close>

definition ensure_dir :: "path \<Rightarrow> name \<Rightarrow> state \<Rightarrow> exn option \<times> state" where
  "ensure_dir replica_root dir_name st =
     (case makedirs (tree st) (replica_root @ [dir_name]) of
        Inr fs' \<Rightarrow> (None, st\<lparr>tree := fs'\<rparr>)
      | Inl e \<Rightarrow>
          if is_OSError e
          then (None, log_error (Failed_to_create_directory replica_root dir_name e) st)
          else (Some e, st))"

fun ensure_dirs :: "path \<Rightarrow> name list \<Rightarrow> state \<Rightarrow> exn option \<times> state" where
  "ensure_dirs replica_root [] st = (None, st)"
| "ensure_dirs replica_root (dir_name # dirs) st =
     (case ensure_dir replica_root dir_name st of
        (Some e, st') \<Rightarrow> (Some e, st')
      | (None, st') \<Rightarrow> ensure_dirs replica_root dirs st')"

text \<open>The three statements under the \<open>if\<close>: the copy, which may raise, the log record and the flag.\<close>

definition copy_file :: "path \<Rightarrow> path \<Rightarrow> state \<Rightarrow> exn option \<times> state" where
  "copy_file source_file replica_file st =
     (case copy2 (tree st) source_file replica_file of
        Inl e \<Rightarrow> (Some e, st)
      | Inr fs' \<Rightarrow>
          (None, (log_info (Copied_file source_file replica_file)
                    (st\<lparr>tree := fs'\<rparr>))\<lparr>changes_made := True\<rparr>))"

definition sync_file :: "'h hasher \<Rightarrow> path \<Rightarrow> path \<Rightarrow> name \<Rightarrow> state \<Rightarrow> exn option \<times> state" where
  "sync_file H root replica_root file_name st =
     (let source_file = root @ [file_name];
          replica_file = replica_root @ [file_name]
      in if \<not> path_exists (tree st) replica_file
         then copy_file source_file replica_file st
         else (case calculate_md5 H source_file st of
                 (Inl e, st1) \<Rightarrow> (Some e, st1)
               | (Inr d1, st1) \<Rightarrow>
                   (case calculate_md5 H replica_file st1 of
                      (Inl e, st2) \<Rightarrow> (Some e, st2)
                    | (Inr d2, st2) \<Rightarrow>
                        if d1 \<noteq> d2 then copy_file source_file replica_file st2
                        else (None, st2))))"

fun sync_files :: "'h hasher \<Rightarrow> path \<Rightarrow> path \<Rightarrow> name list \<Rightarrow> state \<Rightarrow> exn option \<times> state" where
  "sync_files H root replica_root [] st = (None, st)"
| "sync_files H root replica_root (file_name # files) st =
     (case sync_file H root replica_root file_name st of
        (Some e, st') \<Rightarrow> (Some e, st')
      | (None, st') \<Rightarrow> sync_files H root replica_root files st')"

text \<open>The body of the first \<open>for root, dirs, files in os.walk(source)\<close> loop.\<close>

definition sync_dir ::
  "'h hasher \<Rightarrow> path \<Rightarrow> path \<Rightarrow> path \<Rightarrow> name list \<Rightarrow> name list \<Rightarrow> state \<Rightarrow> exn option \<times> state" where
  "sync_dir H source replica root dirs files st =
     (let relative_path = relpath root source;
          replica_root = replica @ relative_path
      in case ensure_dirs replica_root dirs st of
           (Some e, st') \<Rightarrow> (Some e, st')
         | (None, st') \<Rightarrow> sync_files H root replica_root files st')"

text \<open>
  \<open>os.walk\<close> keeps the directories still to visit on a stack; it lists a directory
  when it pops it, the loop body runs on that listing, and the subdirectories listed are
  pushed afterwards. A path that cannot be listed is skipped without a word
  (\<open>onerror\<close> is \<open>None\<close>). The loop body writes to the file system that the walk
  reads, so with a replica root inside the source root the walk may go on for ever:
  the result is \<open>None\<close> then.
\<close>

partial_function (option) walk_source ::
  "'h hasher \<Rightarrow> path \<Rightarrow> path \<Rightarrow> path list \<Rightarrow> state \<Rightarrow> (exn option \<times> state) option" where
  "walk_source H source replica stack st =
     (case stack of
        [] \<Rightarrow> Some (None, st)
      | root # rest \<Rightarrow>
          (case scandir (tree st) root of
             Inl e \<Rightarrow> walk_source H source replica rest st
           | Inr (dirs, files) \<Rightarrow>
               (case sync_dir H source replica root dirs files st of
                  (Some e, st') \<Rightarrow> Some (Some e, st')
                | (None, st') \<Rightarrow>
                    walk_source H source replica (map (\<lambda>d. root @ [d]) dirs @ rest) st')))"

declare walk_source.simps [code]


subsection \<open>Pass 2: pruning the replica\<close>

text \<open>The \<open>try\<close> statement in the second loop, with its handler \<open>except OSError\<close>.\<close>

definition prune_entry :: "path \<Rightarrow> path \<Rightarrow> name \<Rightarrow> state \<Rightarrow> exn option \<times> state" where
  "prune_entry source_root root entry_name st =
     (let replica_path = root @ [entry_name];
          source_path = source_root @ [entry_name]
      in if \<not> path_exists (tree st) source_path
         then (if path_isdir (tree st) replica_path
               then (case rmtree (tree st) replica_path of
                       (None, fs') \<Rightarrow>
                         (None, (log_info (Deleted_directory replica_path)
                                   (st\<lparr>tree := fs'\<rparr>))\<lparr>changes_made := True\<rparr>)
                     | (Some e, fs') \<Rightarrow>
                         if is_OSError e
                         then (None, log_error (Failed_to_delete replica_path e) (st\<lparr>tree := fs'\<rparr>))
                         else (Some e, st\<lparr>tree := fs'\<rparr>))
               else (case os_remove (tree st) replica_path of
                       Inr fs' \<Rightarrow>
                         (None, (log_info (Deleted_file replica_path)
                                   (st\<lparr>tree := fs'\<rparr>))\<lparr>changes_made := True\<rparr>)
                     | Inl e \<Rightarrow>
                         if is_OSError e
                         then (None, log_error (Failed_to_delete replica_path e) st)
                         else (Some e, st)))
         else (None, st))"

fun prune_entries :: "path \<Rightarrow> path \<Rightarrow> name list \<Rightarrow> state \<Rightarrow> exn option \<times> state" where
  "prune_entries source_root root [] st = (None, st)"
| "prune_entries source_root root (entry_name # names) st =
     (case prune_entry source_root root entry_name st of
        (Some e, st') \<Rightarrow> (Some e, st')
      | (None, st') \<Rightarrow> prune_entries source_root root names st')"

text \<open>The body of the second loop, over \<open>os.walk(replica)\<close>.\<close>

definition prune_dir ::
  "path \<Rightarrow> path \<Rightarrow> path \<Rightarrow> name list \<Rightarrow> name list \<Rightarrow> state \<Rightarrow> exn option \<times> state" where
  "prune_dir source replica root dirs files st =
     (let source_root = source @ relpath root replica
      in prune_entries source_root root (files @ dirs) st)"


text \<open>
  The second walk lists the replica while the loop body deletes from it: a directory
  deleted by the body is still on the stack and is skipped when it is popped. The body
  only deletes, so the walk comes to an end: the measure counts the entries below the
  paths on the stack.
\<close>

definition path_size :: "node \<Rightarrow> path \<Rightarrow> nat" where
  "path_size fs p = (case lookup fs p of None \<Rightarrow> 0 | Some n \<Rightarrow> tsize n)"

definition stack_size :: "node \<Rightarrow> path list \<Rightarrow> nat" where
  "stack_size fs stack = sum_list (map (\<lambda>p. Suc (path_size fs p)) stack)"

lemma lookup_append:
  "lookup fs (p @ q) = (case lookup fs p of None \<Rightarrow> None | Some n \<Rightarrow> lookup n q)"
  by (induction fs p rule: lookup.induct) (auto split: option.splits)

lemma resolve_lookup: "resolve fs p = Inr n \<Longrightarrow> lookup fs p = Some n"
  by (induction fs p rule: resolve.induct) (auto split: option.splits if_splits)

lemma sum_children_le:
  "distinct ds \<Longrightarrow> set ds \<subseteq> dom (map_of es) \<Longrightarrow>
   (\<Sum>d\<leftarrow>ds. Suc (tsize (the (map_of es d)))) \<le> (\<Sum>e\<leftarrow>es. Suc (tsize (snd e)))"
proof (induction es arbitrary: ds)
  case Nil
  then show ?case by simp
next
  case (Cons e es)
  obtain n c where e: "e = (n, c)" by (cases e)
  let ?f = "\<lambda>d. Suc (tsize (the (map_of (e # es) d)))"
  let ?g = "\<lambda>d. Suc (tsize (the (map_of es d)))"
  show ?case
  proof (cases "n \<in> set ds")
    case True
    have d': "distinct (remove1 n ds)" using Cons.prems by simp
    have sub: "set (remove1 n ds) \<subseteq> dom (map_of es)"
      using Cons.prems e by (auto simp: dom_def)
    have eq: "map ?f (remove1 n ds) = map ?g (remove1 n ds)"
      using Cons.prems e by auto
    have "sum_list (map ?f ds) = ?f n + sum_list (map ?f (remove1 n ds))"
      using True by (simp add: sum_list_map_remove1)
    also have "\<dots> = ?f n + sum_list (map ?g (remove1 n ds))"
      by (simp only: eq)
    also have "\<dots> = Suc (tsize c) + sum_list (map ?g (remove1 n ds))"
      using e by simp
    also have "\<dots> \<le> Suc (tsize c) + (\<Sum>e\<leftarrow>es. Suc (tsize (snd e)))"
      using Cons.IH[OF d' sub] by simp
    finally show ?thesis using e by simp
  next
    case False
    have sub: "set ds \<subseteq> dom (map_of es)"
      using Cons.prems e False by (auto simp: dom_def split: if_splits)
    have eq: "map ?f ds = map ?g ds"
      using False e by auto
    have "sum_list (map ?f ds) = sum_list (map ?g ds)" by (simp only: eq)
    also have "\<dots> \<le> (\<Sum>e\<leftarrow>es. Suc (tsize (snd e)))"
      using Cons.IH[OF _ sub] Cons.prems by simp
    finally show ?thesis by simp
  qed
qed

lemma scandir_dirs_size:
  assumes "scandir fs root = Inr (dirs, files)"
  shows "stack_size fs (map (\<lambda>d. root @ [d]) dirs) < Suc (path_size fs root)"
proof -
  obtain r w s es where res: "resolve fs root = Inr (Dir r w s es)"
    and dirs: "dirs = filter (entry_isdir es) (remdups (map fst es))"
    using assms by (auto simp: scandir_def split: sum.splits node.splits if_splits)
  have es: "lookup fs root = Some (Dir r w s es)" using res by (rule resolve_lookup)
  have dist: "distinct dirs" using dirs by simp
  have sub: "set dirs \<subseteq> dom (map_of es)"
    using dirs by (auto simp: entry_isdir_def split: option.splits)
  have "\<And>d. d \<in> set dirs \<Longrightarrow> path_size fs (root @ [d]) = tsize (the (map_of es d))"
    using sub es by (auto simp: path_size_def lookup_append split: option.splits)
  then have "stack_size fs (map (\<lambda>d. root @ [d]) dirs)
      = (\<Sum>d\<leftarrow>dirs. Suc (tsize (the (map_of es d))))"
    unfolding stack_size_def by (simp add: comp_def cong: map_cong)
  also have "\<dots> \<le> (\<Sum>e\<leftarrow>es. Suc (tsize (snd e)))"
    by (rule sum_children_le[OF dist sub])
  also have "\<dots> < Suc (path_size fs root)"
    using es by (simp add: path_size_def)
  finally show ?thesis .
qed

lemma state_simps [simp]:
  "tree (log_info m st) = tree st"
  "changes_made (log_info m st) = changes_made st"
  "log_records (log_info m st) = log_records st @ [(INFO, m)]"
  "tree (log_error m st) = tree st"
  "changes_made (log_error m st) = changes_made st"
  "log_records (log_error m st) = log_records st @ [(ERROR, m)]"
  by (simp_all add: log_info_def log_error_def)

lemma stack_size_simps [simp]:
  "stack_size fs [] = 0"
  "stack_size fs (p # ps) = Suc (path_size fs p + stack_size fs ps)"
  "stack_size fs (ps @ qs) = stack_size fs ps + stack_size fs qs"
  by (simp_all add: stack_size_def)

text \<open>Replacing an entry by a smaller one, or deleting it, makes no path bigger.\<close>

lemma sum_update_le:
  "map_of es x = Some c \<Longrightarrow> tsize c' \<le> tsize c \<Longrightarrow>
   (\<Sum>e\<leftarrow>AList.update x c' es. Suc (tsize (snd e))) \<le> (\<Sum>e\<leftarrow>es. Suc (tsize (snd e)))"
  by (induction es) (auto split: if_splits)

definition smaller :: "node \<Rightarrow> node \<Rightarrow> bool" where
  "smaller c' c = (\<forall>q. path_size c' q \<le> path_size c q)"

lemma smaller_refl [simp]: "smaller c c"
  by (simp add: smaller_def)

lemma smaller_tsize: "smaller c' c \<Longrightarrow> tsize c' \<le> tsize c"
  unfolding smaller_def by (erule allE[of _ "[]"]) (simp add: path_size_def)

lemma path_size_Cons:
  "path_size (Dir r w s es) (x # xs) = (case map_of es x of None \<Rightarrow> 0 | Some c \<Rightarrow> path_size c xs)"
  "path_size (File r w c) (x # xs) = 0"
  "path_size n [] = tsize n"
  by (simp_all add: path_size_def split: option.splits)

lemma smaller_update:
  assumes "map_of es x = Some c" "smaller c' c"
  shows "smaller (Dir r w s (AList.update x c' es)) (Dir r w s es)"
  unfolding smaller_def
proof
  fix q
  show "path_size (Dir r w s (AList.update x c' es)) q \<le> path_size (Dir r w s es) q"
  proof (cases q)
    case Nil
    then show ?thesis
      using sum_update_le[OF assms(1) smaller_tsize[OF assms(2)]] by (simp add: path_size_Cons)
  next
    case (Cons y ys)
    then show ?thesis
      using assms by (auto simp: path_size_Cons update_conv' smaller_def)
  qed
qed

lemma smaller_delete: "smaller (Dir r w s (AList.delete x es)) (Dir r w s es)"
  unfolding smaller_def
proof
  fix q
  show "path_size (Dir r w s (AList.delete x es)) q \<le> path_size (Dir r w s es) q"
  proof (cases q)
    case Nil
    then show ?thesis using sum_delete_le[of x es] by (simp add: path_size_Cons)
  next
    case (Cons y ys)
    then show ?thesis
      by (auto simp: path_size_Cons delete_conv' split: option.splits)
  qed
qed

lemma smaller_modify_dir:
  "(\<And>r w s es. smaller (Dir r w s (f es)) (Dir r w s es)) \<Longrightarrow> smaller (modify_dir p f fs) fs"
proof (induction p f fs rule: modify_dir.induct)
  case (1 p f r w c)
  then show ?case by simp
next
  case (2 f r w s es)
  show ?case using 2[of r w s es] by simp
next
  case (3 x xs f r w s es)
  show ?case
  proof (cases "map_of es x")
    case None
    then show ?thesis by simp
  next
    case (Some c)
    have "smaller (modify_dir xs f c) c" using 3(1)[OF Some] 3(2) by blast
    then show ?thesis using smaller_update[OF Some] Some by simp
  qed
qed

lemma smaller_modify_delete: "smaller (modify_dir p (AList.delete k) fs) fs"
  using smaller_modify_dir[of "AList.delete k" p fs] smaller_delete by blast

lemma smaller_modify_update:
  assumes "lookup fs (p @ [k]) = Some c" "smaller c' c"
  shows "smaller (modify_dir p (AList.update k c') fs) fs"
  using assms(1)
proof (induction p "AList.update k c'" fs rule: modify_dir.induct)
  case (1 p r w c)
  then show ?case by simp
next
  case (2 r w s es)
  then have "map_of es k = Some c" by (simp split: option.splits)
  then show ?case using smaller_update[OF _ assms(2)] by simp
next
  case (3 x xs r w s es)
  show ?case
  proof (cases "map_of es x")
    case None
    then show ?thesis by simp
  next
    case (Some d)
    have "lookup d (xs @ [k]) = Some c" using 3(2) Some by simp
    then have "smaller (modify_dir xs (AList.update k c') d) d" using 3(1)[OF Some] by simp
    then show ?thesis using smaller_update[OF Some] Some by simp
  qed
qed

lemma rm_smaller:
  "rm_contents c = (e, c') \<Longrightarrow> smaller c' c"
  "rm_entries wr es = (e, es') \<Longrightarrow> smaller (Dir r0 w0 s0 es') (Dir r0 w0 s0 es)"
proof (induction c and wr es arbitrary: e c' and e es' r0 w0 s0
       rule: rm_contents_rm_entries.induct)
  case (1 r w c)
  then show ?case by auto
next
  case (2 r w s es)
  show ?case
  proof (cases "r \<and> es \<noteq> [] \<and> s")
    case False
    then have "c' = Dir r w s es" using 2(2) by (auto split: if_splits)
    then show ?thesis by simp
  next
    case True
    obtain e1 es1 where re: "rm_entries w es = (e1, es1)" by (cases "rm_entries w es")
    have "smaller (Dir r w s es1) (Dir r w s es)"
      using 2(1)[OF _ _ _ re, of r w s] True by simp
    moreover have "c' = Dir r w s es1" using 2(2) True re by simp
    ultimately show ?thesis by simp
  qed
next
  case (3 w)
  then show ?case by auto
next
  case (4 wr n r' w' c' es)
  show ?case
  proof (cases wr)
    case True
    have "rm_entries wr (AList.delete n es) = (e, es')" using 4(2) True by simp
    then have a: "smaller (Dir r0 w0 s0 es') (Dir r0 w0 s0 (AList.delete n es))"
      using 4(1)[OF True] by simp
    have b: "smaller (Dir r0 w0 s0 (AList.delete n es)) (Dir r0 w0 s0 ((n, File r' w' c') # es))"
      using smaller_delete[of r0 w0 s0 n "(n, File r' w' c') # es"] by simp
    show ?thesis using a b unfolding smaller_def by (meson order_trans)
  next
    case False
    then show ?thesis using 4(2) by auto
  qed
next
  case (5 wr n r' w' s' es0 es)
  obtain e1 c1 where rc: "rm_contents (Dir r' w' s' es0) = (e1, c1)"
    by (cases "rm_contents (Dir r' w' s' es0)")
  have c1: "smaller c1 (Dir r' w' s' es0)" using 5(1)[OF rc] .
  have upd: "smaller (Dir r0 w0 s0 ((n, c1) # es)) (Dir r0 w0 s0 ((n, Dir r' w' s' es0) # es))"
    using smaller_update[of "(n, Dir r' w' s' es0) # es" n "Dir r' w' s' es0" c1 r0 w0 s0] c1
    by simp
  show ?case
  proof (cases "e1 = None \<and> wr")
    case True
    have "rm_entries wr (AList.delete n es) = (e, es')" using 5(3) True rc by simp
    then have a: "smaller (Dir r0 w0 s0 es') (Dir r0 w0 s0 (AList.delete n es))"
      using 5(2)[OF rc[symmetric]] True by simp
    have b: "smaller (Dir r0 w0 s0 (AList.delete n es)) (Dir r0 w0 s0 ((n, Dir r' w' s' es0) # es))"
      using smaller_delete[of r0 w0 s0 n "(n, Dir r' w' s' es0) # es"] by simp
    show ?thesis using a b unfolding smaller_def by (meson order_trans)
  next
    case False
    then have "es' = (n, c1) # es" using 5(3) rc by (auto split: option.splits if_splits)
    then show ?thesis using upd by simp
  qed
qed

lemma smaller_trans: "smaller a b \<Longrightarrow> smaller b c \<Longrightarrow> smaller a c"
  unfolding smaller_def by (meson order_trans)

lemma rmtree_smaller: "smaller (snd (rmtree fs p)) fs"
proof (cases "p = []")
  case True
  then show ?thesis by (simp add: rmtree_def)
next
  case False
  then have split: "dirname p @ [last p] = p" by (simp add: dirname_def)
  show ?thesis
  proof (cases "resolve fs (dirname p)")
    case (Inl e)
    then show ?thesis using False by (simp add: rmtree_def)
  next
    case (Inr d)
    show ?thesis
    proof (cases d)
      case (File r w c)
      then show ?thesis using False Inr by (simp add: rmtree_def)
    next
      case (Dir r w s es)
      show ?thesis
      proof (cases "s \<and> map_of es (last p) \<noteq> None")
        case no: False
        then show ?thesis using False Inr Dir by (auto simp: rmtree_def)
      next
        case True
        then obtain c where c: "map_of es (last p) = Some c" by auto
        obtain e c' where rc: "rm_contents c = (e, c')" by (cases "rm_contents c")
        have lk: "lookup fs (dirname p @ [last p]) = Some c"
          using resolve_lookup[OF Inr] Dir c by (simp add: lookup_append)
        have u: "smaller (modify_dir (dirname p) (AList.update (last p) c') fs) fs"
          by (rule smaller_modify_update[OF lk rm_smaller(1)[OF rc]])
        show ?thesis
          using False Inr Dir True c rc u smaller_modify_delete[of "dirname p" "last p" fs]
          by (auto simp: rmtree_def split: option.splits)
      qed
    qed
  qed
qed

lemma os_remove_smaller: "os_remove fs p = Inr fs' \<Longrightarrow> smaller fs' fs"
  by (auto simp: os_remove_def smaller_modify_delete
           split: sum.splits node.splits option.splits if_splits)

lemma prune_entry_smaller:
  "smaller (tree (snd (prune_entry source_root root n st))) (tree st)"
proof -
  obtain e fs' where rt: "rmtree (tree st) (root @ [n]) = (e, fs')"
    by (cases "rmtree (tree st) (root @ [n])")
  have "smaller fs' (tree st)" using rmtree_smaller[of "tree st" "root @ [n]"] rt by simp
  then show ?thesis
    using rt os_remove_smaller[of "tree st" "root @ [n]"]
    by (auto simp: prune_entry_def Let_def split: sum.splits option.splits)
qed

lemma prune_entries_smaller:
  "smaller (tree (snd (prune_entries source_root root ns st))) (tree st)"
proof (induction ns arbitrary: st)
  case Nil
  then show ?case by simp
next
  case (Cons n ns)
  obtain r st' where pe: "prune_entry source_root root n st = (r, st')"
    by (cases "prune_entry source_root root n st")
  have a: "smaller (tree st') (tree st)"
    using prune_entry_smaller[of source_root root n st] pe by simp
  show ?case
  proof (cases r)
    case None
    then show ?thesis using pe a Cons.IH[of st'] smaller_trans by auto
  next
    case (Some e)
    then show ?thesis using pe a by simp
  qed
qed

lemma prune_dir_smaller:
  "smaller (tree (snd (prune_dir source replica root dirs files st))) (tree st)"
  by (simp add: prune_dir_def prune_entries_smaller)

lemma stack_size_mono:
  "smaller fs' fs \<Longrightarrow> stack_size fs' ps \<le> stack_size fs ps"
  by (induction ps) (auto simp: add_mono smaller_def)

function walk_replica :: "path \<Rightarrow> path \<Rightarrow> path list \<Rightarrow> state \<Rightarrow> exn option \<times> state" where
  "walk_replica source replica [] st = (None, st)"
| "walk_replica source replica (root # stack) st =
     (case scandir (tree st) root of
        Inl e \<Rightarrow> walk_replica source replica stack st
      | Inr (dirs, files) \<Rightarrow>
          (case prune_dir source replica root dirs files st of
             (Some e, st') \<Rightarrow> (Some e, st')
           | (None, st') \<Rightarrow>
               walk_replica source replica (map (\<lambda>d. root @ [d]) dirs @ stack) st'))"
  by pat_completeness auto
termination
proof (relation "measure (\<lambda>(source, replica, stack, st). stack_size (tree st) stack)",
       goal_cases)
  case 1
  then show ?case by simp
next
  case (2 source replica root stack st e)
  then show ?case by simp
next
  case (3 source replica root stack st x dirs files r st')
  let ?new = "map (\<lambda>d. root @ [d]) dirs"
  have "snd (prune_dir source replica root dirs files st) = st'"
    using 3(3) by (metis snd_conv)
  then have sm: "smaller (tree st') (tree st)"
    using prune_dir_smaller[of source replica root dirs files st] by simp
  have "scandir (tree st) root = Inr (dirs, files)"
    using 3(1,2) by simp
  then have b: "stack_size (tree st) ?new < Suc (path_size (tree st) root)"
    by (rule scandir_dirs_size)
  have c: "stack_size (tree st') ?new \<le> stack_size (tree st) ?new"
    by (rule stack_size_mono[OF sm])
  have d: "stack_size (tree st') stack \<le> stack_size (tree st) stack"
    by (rule stack_size_mono[OF sm])
  show ?case using b c d by simp
qed

declare walk_replica.simps [simp del]


subsection \<open>One call of \<open>sync_folders\<close>\<close>

text \<open>
  The loop \<open>for folder, name in [(source, "source"), (replica, "replica")]\<close> of the
  first \<open>try\<close> statement.
\<close>

fun ensure_roots :: "(path \<times> string) list \<Rightarrow> state \<Rightarrow> exn option \<times> state" where
  "ensure_roots [] st = (None, st)"
| "ensure_roots ((folder, name) # folders) st =
     (if \<not> path_exists (tree st) folder
      then (case makedirs (tree st) folder of
              Inl e \<Rightarrow> (Some e, st)
            | Inr fs' \<Rightarrow>
                ensure_roots folders
                  ((log_info (Created_directory name folder)
                      (st\<lparr>tree := fs'\<rparr>))\<lparr>changes_made := True\<rparr>))
      else ensure_roots folders st)"

text \<open>The body of the second \<open>try\<close> statement: the two passes, the second after the first.\<close>

definition both_passes ::
  "'h hasher \<Rightarrow> path \<Rightarrow> path \<Rightarrow> state \<Rightarrow> (exn option \<times> state) option" where
  "both_passes H source replica st =
     (case walk_source H source replica [source] st of
        None \<Rightarrow> None
      | Some (Some e, st') \<Rightarrow> Some (Some e, st')
      | Some (None, st') \<Rightarrow> Some (walk_replica source replica [replica] st'))"

text \<open>
  The outcome of a call: \<open>None\<close> when the call never returns; otherwise the state it
  leaves, with an exception that left the function (\<open>Inl\<close>) or with Python's return
  value (\<open>Inr\<close>): \<open>Some b\<close> for the \<open>return changes_made\<close> of the first \<open>except\<close> clause,
  \<open>None\<close> when the function runs off its end.
\<close>

definition sync_folders ::
  "'h hasher \<Rightarrow> path \<Rightarrow> path \<Rightarrow> state \<Rightarrow> ((exn + bool option) \<times> state) option" where
  "sync_folders H source replica st0 =
     (let st = (log_info Starting_synchronization st0)\<lparr>changes_made := False\<rparr>
      in case ensure_roots [(source, ''source''), (replica, ''replica'')] st of
           (Some e, st1) \<Rightarrow>
             if is_OSError e
             then Some (Inr (Some (changes_made st1)),
                        log_error (Failed_to_create_directories replica source e) st1)
             else Some (Inl e, st1)
         | (None, st1) \<Rightarrow>
             (case both_passes H source replica st1 of
                None \<Rightarrow> None
              | Some (Some e, st2) \<Rightarrow>
                  if is_Exception e
                  then (let st3 = log_error (Error_during_synchronization e) st2;
                            st4 = (if \<not> changes_made st3 then log_info No_changes_made st3 else st3)
                        in Some (Inr None, log_info Synchronization_completed st4))
                  else Some (Inl e, st2)
              | Some (None, st2) \<Rightarrow>
                  (let st4 = (if \<not> changes_made st2 then log_info No_changes_made st2 else st2)
                   in Some (Inr None, log_info Synchronization_completed st4))))"

section \<open>A concrete hasher and a fresh state, for evaluation\<close>

text \<open>
  The digest of \<open>plain_hasher\<close> is the hexadecimal dump of all the bytes fed to it: it
  satisfies the law of \<open>update\<close> (feeding \<open>a\<close> then \<open>b\<close> is feeding \<open>a + b\<close>) and has
  no collisions.
\<close>

definition hex_digit :: "nat \<Rightarrow> char" where
  "hex_digit n = (''0123456789abcdef'' ! (n mod 16))"

definition plain_hasher :: "(byte list) hasher" where
  "plain_hasher =
     \<lparr>h_new = [],
      h_update = (\<lambda>h chunk. h @ chunk),
      h_hexdigest = (\<lambda>h. concat (map (\<lambda>b. [hex_digit (unat b div 16), hex_digit (unat b mod 16)]) h))\<rparr>"

definition fresh :: "node \<Rightarrow> state" where
  "fresh fs = \<lparr>tree = fs, log_records = [], changes_made = False\<rparr>"

text \<open>A directory and a file that the process may use in every way.\<close>

definition folder :: "(name \<times> node) list \<Rightarrow> node" where
  "folder es = Dir True True True es"

definition plain_file :: "byte list \<Rightarrow> node" where
  "plain_file c = File True True c"


section \<open>The exceptions of the system calls\<close>

text \<open>Every exception that a modelled system call raises is an \<open>OSError\<close>.\<close>

lemma is_OSError_Exception: "is_OSError e \<Longrightarrow> is_Exception e"
  by (cases e) simp_all

lemma resolve_OSError: "resolve fs p = Inl e \<Longrightarrow> is_OSError e"
  by (induction fs p rule: resolve.induct) (auto split: option.splits if_splits)

lemma mkdir_OSError: "mkdir fs p = Inl e \<Longrightarrow> is_OSError e"
  by (auto simp: mkdir_def dest: resolve_OSError
           split: if_splits sum.splits node.splits option.splits)

lemma makedirs_OSError: "makedirs fs p = Inl e \<Longrightarrow> is_OSError e"
proof (induction fs p arbitrary: e rule: makedirs.induct)
  case (1 fs p)
  show ?case
  proof (cases "p \<noteq> [] \<and> \<not> path_exists fs (dirname p)")
    case False
    then show ?thesis
      using "1.prems" by (subst (asm) makedirs.simps) (auto dest: mkdir_OSError split: sum.splits if_splits)
  next
    case True
    show ?thesis
    proof (cases "makedirs fs (dirname p)")
      case (Inl e')
      then have "is_OSError e'" using "1.IH"[OF True] by simp
      then show ?thesis
        using "1.prems" True Inl
        by (subst (asm) makedirs.simps) (auto dest: mkdir_OSError split: sum.splits if_splits)
    next
      case (Inr fs1)
      then show ?thesis
        using "1.prems" True
        by (subst (asm) makedirs.simps) (auto dest: mkdir_OSError split: sum.splits if_splits)
    qed
  qed
qed

lemma open_rb_OSError: "open_rb fs p = Inl e \<Longrightarrow> is_OSError e"
  by (auto simp: open_rb_def dest: resolve_OSError split: sum.splits node.splits if_splits)

lemma write_file_OSError: "write_file fs p r w c = Inl e \<Longrightarrow> is_OSError e"
  by (auto simp: write_file_def dest: resolve_OSError
           split: if_splits sum.splits node.splits option.splits)

lemma copy2_OSError: "copy2 fs src dst = Inl e \<Longrightarrow> is_OSError e"
  by (auto simp: copy2_def Let_def dest: resolve_OSError write_file_OSError
           split: if_splits sum.splits node.splits)

lemma os_remove_OSError: "os_remove fs p = Inl e \<Longrightarrow> is_OSError e"
  by (auto simp: os_remove_def dest: resolve_OSError
           split: if_splits sum.splits node.splits option.splits)

lemma rm_OSError:
  "rm_contents c = (Some e, c') \<Longrightarrow> is_OSError e"
  "rm_entries wr es = (Some e, es') \<Longrightarrow> is_OSError e"
proof (induction c and wr es arbitrary: e c' and e es' rule: rm_contents_rm_entries.induct)
  case (1 r w c)
  then show ?case by (auto split: if_splits)
next
  case (2 r w s es)
  then show ?case by (auto split: if_splits prod.splits)
next
  case (3 w)
  then show ?case by simp
next
  case (4 wr n r' w' c' es)
  then show ?case by (auto split: if_splits)
next
  case (5 wr n r' w' s' es0 es)
  obtain e1 c1 where rc: "rm_contents (Dir r' w' s' es0) = (e1, c1)"
    by (cases "rm_contents (Dir r' w' s' es0)")
  show ?case
  proof (cases e1)
    case None
    then show ?thesis
      using 5(2)[OF rc[symmetric]] 5(3) rc by (auto split: if_splits)
  next
    case (Some e2)
    then show ?thesis using 5(1)[of e2 c1] 5(3) rc by auto
  qed
qed

lemma rmtree_OSError: "rmtree fs p = (Some e, fs') \<Longrightarrow> is_OSError e"
  by (auto simp: rmtree_def dest: resolve_OSError rm_OSError(1)
           split: if_splits sum.splits node.splits option.splits prod.splits)

lemma scandir_OSError: "scandir fs p = Inl e \<Longrightarrow> is_OSError e"
  by (auto simp: scandir_def dest: resolve_OSError split: sum.splits node.splits if_splits)


section \<open>The fingerprinter: chunks and totality\<close>

lemma read_chunks_update:
  "(\<And>h. upd h [] = h) \<Longrightarrow> (\<And>h a b. upd (upd h a) b = upd h (a @ b)) \<Longrightarrow>
   read_chunks upd h bytes = upd h bytes"
proof (induction upd h bytes rule: read_chunks.induct)
  case (1 upd h unread)
  show ?case
  proof (cases "take 4096 unread = []")
    case True
    then have "unread = []" by (cases unread) auto
    then show ?thesis using "1.prems"(1) by (simp add: read_chunks.simps[of upd h "[]"])
  next
    case False
    have "read_chunks upd h unread
        = read_chunks upd (upd h (take 4096 unread)) (drop 4096 unread)"
      using False by (simp add: read_chunks.simps[of upd h unread])
    also have "\<dots> = upd (upd h (take 4096 unread)) (drop 4096 unread)"
      using "1.IH"[OF refl False] "1.prems" by simp
    also have "\<dots> = upd h unread"
      using "1.prems"(2) by simp
    finally show ?thesis .
  qed
qed

lemma calculate_md5_readable:
  "open_rb (tree st) p = Inr bytes \<Longrightarrow>
   calculate_md5 H p st =
     (Inr (Some (h_hexdigest H (read_chunks (h_update H) (h_new H) bytes))), st)"
  by (simp add: calculate_md5_def calculate_md5_try_def)

text \<open>
  Claim C6. For a hash object whose \<open>update\<close> is the documented one (an empty chunk
  changes nothing, two updates are one update with the concatenation), the digest that
  \<open>calculate_md5\<close> computes from 4096-byte chunks of a readable file is the digest of
  the whole content fed at once; so any other readable file with the same bytes gets
  the same digest.
\<close>

theorem calculate_md5_chunks_whole:
  assumes "\<And>h. h_update H h [] = h"
    and "\<And>h a b. h_update H (h_update H h a) b = h_update H h (a @ b)"
    and "open_rb (tree st) p = Inr bytes"
  shows "calculate_md5 H p st = (Inr (Some (h_hexdigest H (h_update H (h_new H) bytes))), st)
       \<and> (\<forall>p' st'. open_rb (tree st') p' = Inr bytes \<longrightarrow>
            fst (calculate_md5 H p' st') = fst (calculate_md5 H p st))"
  using assms by (simp add: calculate_md5_readable read_chunks_update)

theorem calculate_md5_chunks_whole_witness:
  "calculate_md5 plain_hasher [''big'']
       \<lparr>tree = Dir True True True [(''big'', File True True (replicate 5000 65))],
        log_records = [], changes_made = False\<rparr>
     = (Inr (Some (h_hexdigest plain_hasher
                (h_update plain_hasher (h_new plain_hasher) (replicate 5000 65)))),
        \<lparr>tree = Dir True True True [(''big'', File True True (replicate 5000 65))],
         log_records = [], changes_made = False\<rparr>)
   \<and> fst (calculate_md5 plain_hasher [''copy'']
       \<lparr>tree = Dir True True True [(''copy'', File True False (replicate 5000 65))],
        log_records = [], changes_made = True\<rparr>)
     = fst (calculate_md5 plain_hasher [''big'']
       \<lparr>tree = Dir True True True [(''big'', File True True (replicate 5000 65))],
        log_records = [], changes_made = False\<rparr>)"
proof -
  let ?st = "\<lparr>tree = Dir True True True [(''big'', File True True (replicate 5000 65))],
        log_records = [], changes_made = False\<rparr>"
  let ?st' = "\<lparr>tree = Dir True True True [(''copy'', File True False (replicate 5000 65))],
        log_records = [], changes_made = True\<rparr>"
  have 1: "\<And>h. h_update plain_hasher h [] = h" by (simp add: plain_hasher_def)
  have 2: "\<And>h a b. h_update plain_hasher (h_update plain_hasher h a) b
      = h_update plain_hasher h (a @ b)" by (simp add: plain_hasher_def)
  have 3: "open_rb (tree ?st) [''big''] = Inr (replicate 5000 65)" by (simp add: open_rb_def)
  have 4: "open_rb (tree ?st') [''copy''] = Inr (replicate 5000 65)" by (simp add: open_rb_def)
  show ?thesis
    using calculate_md5_chunks_whole[of plain_hasher, OF 1 2 3] 4 by blast
qed


text \<open>
  Claim C9. \<open>calculate_md5\<close> returns for every path, file system and state, and no
  exception leaves it: either the \<open>try\<close> block produced a digest, which is returned
  with the state untouched, or it raised some exception \<open>e\<close>; every exception that
  opening and reading raise is an \<open>OSError\<close>, hence an \<open>Exception\<close>, so the handler
  catches it, logs exactly one error record naming the path and \<open>e\<close>, and returns
  \<open>None\<close>.
\<close>

theorem calculate_md5_total:
  "((\<exists>d. calculate_md5_try H (tree st) file_path = Inr d \<and>
         calculate_md5 H file_path st = (Inr (Some d), st))
    \<or> (\<exists>e. calculate_md5_try H (tree st) file_path = Inl e \<and> is_OSError e \<and>
           calculate_md5 H file_path st =
             (Inr None, log_error (Failed_to_calculate_MD5 file_path e) st)))
   \<and> (\<forall>e. fst (calculate_md5 H file_path st) \<noteq> Inl e)"
proof (cases "calculate_md5_try H (tree st) file_path")
  case (Inr d)
  then show ?thesis by (simp add: calculate_md5_def)
next
  case (Inl e)
  then have "open_rb (tree st) file_path = Inl e"
    by (auto simp: calculate_md5_try_def split: sum.splits)
  then have os: "is_OSError e" by (rule open_rb_OSError)
  then have "is_Exception e" by (rule is_OSError_Exception)
  then show ?thesis using Inl os by (simp add: calculate_md5_def)
qed


section \<open>The value returned and the change flag\<close>

text \<open>
  Claim C2, at a failing input: the source holds one file, the replica root is empty.
  The copy succeeds and \<open>changes_made\<close> is set, but the function runs off its end and
  returns \<open>None\<close>, not the flag.
\<close>

theorem sync_folders_returns_None:
  "sync_folders plain_hasher [''source''] [''replica'']
     (fresh (folder [(''source'', folder [(''a.txt'', plain_file [118, 50])]),
                     (''replica'', folder [])]))
   = Some (Inr None,
      \<lparr>tree = folder [(''source'', folder [(''a.txt'', plain_file [118, 50])]),
                      (''replica'', folder [(''a.txt'', plain_file [118, 50])])],
       log_records =
         [(INFO, Starting_synchronization),
          (INFO, Copied_file [''source'', ''a.txt''] [''replica'', ''a.txt'']),
          (INFO, Synchronization_completed)],
       changes_made = True\<rparr>)"
  by code_simp

text \<open>
  Claim C8 as stated fails when the source root was missing and has just been created:
  the creation of the replica root then fails with the flag already set, and the early
  return gives \<open>True\<close>.
\<close>

theorem root_failure_after_source_created:
  "\<not> path_exists (folder [(''blocker'', plain_file [])]) [''source'']
   \<and> \<not> path_exists (folder [(''blocker'', plain_file []), (''source'', folder [])])
         [''blocker'', ''replica'']
   \<and> makedirs (folder [(''blocker'', plain_file []), (''source'', folder [])])
         [''blocker'', ''replica'']
       = Inl NotADirectoryError
   \<and> sync_folders plain_hasher [''source''] [''blocker'', ''replica'']
       (fresh (folder [(''blocker'', plain_file [])]))
     = Some (Inr (Some True),
        \<lparr>tree = folder [(''blocker'', plain_file []), (''source'', folder [])],
         log_records =
           [(INFO, Starting_synchronization),
            (INFO, Created_directory ''source'' [''source'']),
            (ERROR, Failed_to_create_directories [''blocker'', ''replica''] [''source'']
                      NotADirectoryError)],
         changes_made = True\<rparr>)"
  by code_simp


text \<open>
  Claim C8, amended. When the creation of a missing root raises, the call logs one
  error record and returns the flag at once, nothing else being done, and no exception
  leaves the call: \<open>False\<close> when the source root's creation failed, or when the source
  root existed and the replica root's creation failed; \<open>True\<close> when the source root
  had just been created and the replica root's creation failed.
\<close>

theorem root_creation_failure_flag:
  "(\<not> path_exists (tree st) source \<and> makedirs (tree st) source = Inl e \<longrightarrow>
      sync_folders H source replica st =
        Some (Inr (Some False),
         log_error (Failed_to_create_directories replica source e)
           ((log_info Starting_synchronization st)\<lparr>changes_made := False\<rparr>)))
   \<and> (path_exists (tree st) source \<and> \<not> path_exists (tree st) replica \<and>
        makedirs (tree st) replica = Inl e \<longrightarrow>
      sync_folders H source replica st =
        Some (Inr (Some False),
         log_error (Failed_to_create_directories replica source e)
           ((log_info Starting_synchronization st)\<lparr>changes_made := False\<rparr>)))
   \<and> (\<not> path_exists (tree st) source \<and> makedirs (tree st) source = Inr fs' \<and>
        \<not> path_exists fs' replica \<and> makedirs fs' replica = Inl e \<longrightarrow>
      sync_folders H source replica st =
        Some (Inr (Some True),
         log_error (Failed_to_create_directories replica source e)
           ((log_info (Created_directory ''source'' source)
               ((log_info Starting_synchronization st)
                  \<lparr>changes_made := False, tree := fs'\<rparr>))\<lparr>changes_made := True\<rparr>)))"
proof (intro conjI impI)
  assume a: "\<not> path_exists (tree st) source \<and> makedirs (tree st) source = Inl e"
  then have "is_OSError e" using makedirs_OSError by blast
  then show "sync_folders H source replica st =
        Some (Inr (Some False),
         log_error (Failed_to_create_directories replica source e)
           ((log_info Starting_synchronization st)\<lparr>changes_made := False\<rparr>))"
    using a by (simp add: sync_folders_def Let_def log_info_def log_error_def)
next
  assume a: "path_exists (tree st) source \<and> \<not> path_exists (tree st) replica \<and>
        makedirs (tree st) replica = Inl e"
  then have "is_OSError e" using makedirs_OSError by blast
  then show "sync_folders H source replica st =
        Some (Inr (Some False),
         log_error (Failed_to_create_directories replica source e)
           ((log_info Starting_synchronization st)\<lparr>changes_made := False\<rparr>))"
    using a by (simp add: sync_folders_def Let_def log_info_def log_error_def)
next
  assume a: "\<not> path_exists (tree st) source \<and> makedirs (tree st) source = Inr fs' \<and>
        \<not> path_exists fs' replica \<and> makedirs fs' replica = Inl e"
  then have "is_OSError e" using makedirs_OSError by blast
  then show "sync_folders H source replica st =
        Some (Inr (Some True),
         log_error (Failed_to_create_directories replica source e)
           ((log_info (Created_directory ''source'' source)
               ((log_info Starting_synchronization st)
                  \<lparr>changes_made := False, tree := fs'\<rparr>))\<lparr>changes_made := True\<rparr>))"
    using a by (simp add: sync_folders_def Let_def log_info_def log_error_def)
qed

theorem root_creation_failure_flag_witness:
  "sync_folders plain_hasher [''blocker'', ''source''] [''replica'']
       (fresh (folder [(''blocker'', plain_file [])]))
     = Some (Inr (Some False),
        \<lparr>tree = folder [(''blocker'', plain_file [])],
         log_records =
           [(INFO, Starting_synchronization),
            (ERROR, Failed_to_create_directories [''replica''] [''blocker'', ''source'']
                      NotADirectoryError)],
         changes_made = False\<rparr>)
   \<and> sync_folders plain_hasher [''source''] [''blocker'', ''replica'']
       (fresh (folder [(''source'', folder []), (''blocker'', plain_file [])]))
     = Some (Inr (Some False),
        \<lparr>tree = folder [(''source'', folder []), (''blocker'', plain_file [])],
         log_records =
           [(INFO, Starting_synchronization),
            (ERROR, Failed_to_create_directories [''blocker'', ''replica''] [''source'']
                      NotADirectoryError)],
         changes_made = False\<rparr>)
   \<and> sync_folders plain_hasher [''source''] [''blocker'', ''replica'']
       (fresh (folder [(''blocker'', plain_file [])]))
     = Some (Inr (Some True),
        \<lparr>tree = folder [(''blocker'', plain_file []), (''source'', folder [])],
         log_records =
           [(INFO, Starting_synchronization),
            (INFO, Created_directory ''source'' [''source'']),
            (ERROR, Failed_to_create_directories [''blocker'', ''replica''] [''source'']
                      NotADirectoryError)],
         changes_made = True\<rparr>)"
proof -
  let ?blocked = "folder [(''blocker'', plain_file [])]"
  let ?with_source = "folder [(''source'', folder []), (''blocker'', plain_file [])]"
  let ?created = "folder [(''blocker'', plain_file []), (''source'', folder [])]"
  have m1: "makedirs ?blocked [''blocker'', ''source''] = Inl NotADirectoryError"
    by code_simp
  have m2: "makedirs ?with_source [''blocker'', ''replica''] = Inl NotADirectoryError"
    by code_simp
  have m3: "makedirs ?blocked [''source''] = Inr ?created"
    by code_simp
  have m4: "makedirs ?created [''blocker'', ''replica''] = Inl NotADirectoryError"
    by code_simp
  have x1: "\<not> path_exists ?blocked [''blocker'', ''source'']"
    and x2: "\<not> path_exists ?with_source [''blocker'', ''replica'']"
    and x3: "\<not> path_exists ?blocked [''source'']"
    and x4: "path_exists ?with_source [''source'']"
    and x5: "\<not> path_exists ?created [''blocker'', ''replica'']"
    by (simp_all add: path_exists_def folder_def plain_file_def)
  show ?thesis
    using
      root_creation_failure_flag[of "fresh ?blocked" "[''blocker'', ''source'']"
        NotADirectoryError plain_hasher "[''replica'']"]
      root_creation_failure_flag[of "fresh ?with_source" "[''source'']"
        NotADirectoryError plain_hasher "[''blocker'', ''replica'']"]
      root_creation_failure_flag[of "fresh ?blocked" "[''source'']"
        NotADirectoryError plain_hasher "[''blocker'', ''replica'']" ?created]
      m1 m2 m3 m4 x1 x2 x3 x4 x5
    by (simp add: fresh_def log_info_def log_error_def)
qed


section \<open>Failures inside the first pass\<close>

text \<open>
  Claim C3, at a failing input: neither \<open>a.txt\<close> can be read, so both digests are
  \<open>None\<close>, the comparison finds them equal and the file is not copied, although the
  contents differ.
\<close>

theorem both_digests_fail_no_copy:
  "sync_folders plain_hasher [''source''] [''replica'']
     (fresh (folder [(''source'', folder [(''a.txt'', File False True [118, 50])]),
                     (''replica'', folder [(''a.txt'', File False True [118, 49])])]))
   = Some (Inr None,
      \<lparr>tree = folder [(''source'', folder [(''a.txt'', File False True [118, 50])]),
                      (''replica'', folder [(''a.txt'', File False True [118, 49])])],
       log_records =
         [(INFO, Starting_synchronization),
          (ERROR, Failed_to_calculate_MD5 [''source'', ''a.txt''] PermissionError),
          (ERROR, Failed_to_calculate_MD5 [''replica'', ''a.txt''] PermissionError),
          (INFO, No_changes_made),
          (INFO, Synchronization_completed)],
       changes_made = False\<rparr>)"
  by code_simp

text \<open>
  Claim C4, at a failing input: \<open>a.txt\<close> cannot be read and has no replica yet, so
  \<open>shutil.copy2\<close> raises inside the loop; the exception ends both passes: \<open>b.txt\<close> is
  never copied and the stale \<open>c.txt\<close> is never pruned.
\<close>

theorem failed_copy_aborts_pass:
  "sync_folders plain_hasher [''source''] [''replica'']
     (fresh (folder [(''source'', folder [(''a.txt'', File False True [1]),
                                          (''b.txt'', plain_file [2])]),
                     (''replica'', folder [(''c.txt'', plain_file [3])])]))
   = Some (Inr None,
      \<lparr>tree = folder [(''source'', folder [(''a.txt'', File False True [1]),
                                           (''b.txt'', plain_file [2])]),
                      (''replica'', folder [(''c.txt'', plain_file [3])])],
       log_records =
         [(INFO, Starting_synchronization),
          (ERROR, Error_during_synchronization PermissionError),
          (INFO, No_changes_made),
          (INFO, Synchronization_completed)],
       changes_made = False\<rparr>)"
  by code_simp

text \<open>
  Claim C5, at a failing input: \<open>a\<close> is a file in the source and a directory in the
  replica. Each call copies the file into that directory and prunes the copy again, so
  the second call, on the state the first one left, repeats both mutations, ends with
  the flag set and returns \<open>None\<close>.
\<close>

theorem second_call_mutates_again:
  "sync_folders plain_hasher [''source''] [''replica'']
     (fresh (folder [(''source'', folder [(''a'', plain_file [120])]),
                     (''replica'', folder [(''a'', folder [])])]))
   = Some (Inr None,
      \<lparr>tree = folder [(''source'', folder [(''a'', plain_file [120])]),
                      (''replica'', folder [(''a'', folder [])])],
       log_records =
         [(INFO, Starting_synchronization),
          (ERROR, Failed_to_calculate_MD5 [''replica'', ''a''] IsADirectoryError),
          (INFO, Copied_file [''source'', ''a''] [''replica'', ''a'']),
          (INFO, Deleted_file [''replica'', ''a'', ''a'']),
          (INFO, Synchronization_completed)],
       changes_made = True\<rparr>)
   \<and> sync_folders plain_hasher [''source''] [''replica'']
      \<lparr>tree = folder [(''source'', folder [(''a'', plain_file [120])]),
                      (''replica'', folder [(''a'', folder [])])],
       log_records =
         [(INFO, Starting_synchronization),
          (ERROR, Failed_to_calculate_MD5 [''replica'', ''a''] IsADirectoryError),
          (INFO, Copied_file [''source'', ''a''] [''replica'', ''a'']),
          (INFO, Deleted_file [''replica'', ''a'', ''a'']),
          (INFO, Synchronization_completed)],
       changes_made = True\<rparr>
   = Some (Inr None,
      \<lparr>tree = folder [(''source'', folder [(''a'', plain_file [120])]),
                      (''replica'', folder [(''a'', folder [])])],
       log_records =
         [(INFO, Starting_synchronization),
          (ERROR, Failed_to_calculate_MD5 [''replica'', ''a''] IsADirectoryError),
          (INFO, Copied_file [''source'', ''a''] [''replica'', ''a'']),
          (INFO, Deleted_file [''replica'', ''a'', ''a'']),
          (INFO, Synchronization_completed),
          (INFO, Starting_synchronization),
          (ERROR, Failed_to_calculate_MD5 [''replica'', ''a''] IsADirectoryError),
          (INFO, Copied_file [''source'', ''a''] [''replica'', ''a'']),
          (INFO, Deleted_file [''replica'', ''a'', ''a'']),
          (INFO, Synchronization_completed)],
       changes_made = True\<rparr>)"
  by code_simp

section \<open>Roots inside one another, directories that cannot be listed\<close>


text \<open>
  Claim C7 as stated fails when the source holds a directory that the process cannot
  list: the missing replica root is created, but \<open>os.walk\<close> skips \<open>source/d\<close> without
  a word, so \<open>d/x.txt\<close> never reaches the replica, and no error is logged.
\<close>

theorem unlistable_directory_not_mirrored:
  "sync_folders plain_hasher [''source''] [''replica'']
     (fresh (folder [(''source'',
                folder [(''top.txt'', plain_file [1]),
                        (''d'', Dir False False False [(''x.txt'', plain_file [2])])])]))
   = Some (Inr None,
      \<lparr>tree = folder [(''source'',
                 folder [(''top.txt'', plain_file [1]),
                         (''d'', Dir False False False [(''x.txt'', plain_file [2])])]),
               (''replica'', folder [(''d'', folder []), (''top.txt'', plain_file [1])])],
       log_records =
         [(INFO, Starting_synchronization),
          (INFO, Created_directory ''replica'' [''replica'']),
          (INFO, Copied_file [''source'', ''top.txt''] [''replica'', ''top.txt'']),
          (INFO, Synchronization_completed)],
       changes_made = True\<rparr>)"
  by code_simp

text \<open>
  With the replica root in place it is worse: the copy of \<open>d/x.txt\<close> that the replica
  has is deleted, because \<open>os.path.exists\<close> answers \<open>False\<close> below a directory that
  cannot be searched.
\<close>

lemma unlistable_directory_pruned:
  "sync_folders plain_hasher [''source''] [''replica'']
     (fresh (folder [(''source'',
                folder [(''top.txt'', plain_file [1]),
                        (''d'', Dir False False False [(''x.txt'', plain_file [2])])]),
              (''replica'', folder [(''d'', folder [(''x.txt'', plain_file [2])])])]))
   = Some (Inr None,
      \<lparr>tree = folder [(''source'',
                 folder [(''top.txt'', plain_file [1]),
                         (''d'', Dir False False False [(''x.txt'', plain_file [2])])]),
               (''replica'', folder [(''d'', folder []), (''top.txt'', plain_file [1])])],
       log_records =
         [(INFO, Starting_synchronization),
          (INFO, Copied_file [''source'', ''top.txt''] [''replica'', ''top.txt'']),
          (INFO, Deleted_file [''replica'', ''d'', ''x.txt'']),
          (INFO, Synchronization_completed)],
       changes_made = True\<rparr>)"
  by code_simp

section \<open>What a path holds\<close>

text \<open>
  The observations the claims are about: a path holds nothing, a directory, or a file
  with its bytes and its read permission. Every file system call is characterised by
  what it does to these observations.
\<close>

datatype kind = Missing | IsDir | IsFile bool "byte list"

definition kind :: "node \<Rightarrow> path \<Rightarrow> kind" where
  "kind fs p =
     (case lookup fs p of
        None \<Rightarrow> Missing
      | Some (Dir r w s es) \<Rightarrow> IsDir
      | Some (File r w c) \<Rightarrow> IsFile r c)"

lemma kind_Nil [simp]:
  "kind (Dir r w s es) [] = IsDir" "kind (File r w c) [] = IsFile r c"
  by (simp_all add: kind_def)

lemma kind_Cons:
  "kind (Dir r w s es) (x # xs) = (case map_of es x of None \<Rightarrow> Missing | Some c \<Rightarrow> kind c xs)"
  "kind (File r w c) (x # xs) = Missing"
  by (simp_all add: kind_def split: option.splits)

lemma kind_append:
  "kind fs (p @ q) = (case lookup fs p of None \<Rightarrow> Missing | Some n \<Rightarrow> kind n q)"
  by (simp add: kind_def lookup_append split: option.splits)

lemma kind_missing_below: "kind fs p \<noteq> IsDir \<Longrightarrow> q \<noteq> [] \<Longrightarrow> kind fs (p @ q) = Missing"
proof -
  assume a: "kind fs p \<noteq> IsDir" and "q \<noteq> []"
  then obtain y ys where q: "q = y # ys" by (cases q) auto
  show ?thesis
  proof (cases "lookup fs p")
    case None
    then show ?thesis by (simp add: kind_append)
  next
    case (Some n)
    then obtain r w c where "n = File r w c" using a by (cases n) (auto simp: kind_def)
    then show ?thesis using Some q by (simp add: kind_append kind_Cons)
  qed
qed

lemma kind_dir_above: "kind fs (p @ q) \<noteq> Missing \<Longrightarrow> q \<noteq> [] \<Longrightarrow> kind fs p = IsDir"
  using kind_missing_below by blast

lemma kind_dir_prefix: "kind fs q \<noteq> Missing \<Longrightarrow> strict_prefix p q \<Longrightarrow> kind fs p = IsDir"
  by (auto simp: strict_prefix_def prefix_def dest: kind_dir_above)

lemma path_split: "p \<noteq> [] \<Longrightarrow> dirname p @ [last p] = p"
  by (simp add: dirname_def)

lemma lookup_kind_simps:
  "lookup fs p = None \<Longrightarrow> kind fs p = Missing"
  "lookup fs p = Some (Dir r w s es) \<Longrightarrow> kind fs p = IsDir"
  "lookup fs p = Some (File r w c) \<Longrightarrow> kind fs p = IsFile r c"
  by (simp_all add: kind_def)

lemma kind_child:
  "lookup fs p = Some (Dir r w s es) \<Longrightarrow>
   kind fs (p @ [n]) = (case map_of es n of None \<Rightarrow> Missing | Some c \<Rightarrow> kind c [])"
  by (simp add: kind_append kind_Cons)

lemma kind_Dir_empty: "kind (Dir r w s []) t = (if t = [] then IsDir else Missing)"
  by (cases t) (simp_all add: kind_Cons)


text \<open>What the process sees is there.\<close>

lemma path_exists_kind: "path_exists fs p \<Longrightarrow> kind fs p \<noteq> Missing"
  by (auto simp: path_exists_def kind_def dest: resolve_lookup split: sum.splits node.splits)

lemma path_isdir_kind: "path_isdir fs p \<Longrightarrow> kind fs p = IsDir"
  by (auto simp: path_isdir_def kind_def dest: resolve_lookup split: sum.splits node.splits)

subsection \<open>Replacing and deleting an entry\<close>

lemma kind_modify_update:
  "kind fs p = IsDir \<Longrightarrow>
   kind (modify_dir p (AList.update n v) fs) q =
     (if prefix (p @ [n]) q then kind v (drop (Suc (length p)) q) else kind fs q)"
proof (induction p arbitrary: fs q)
  case Nil
  then obtain r w s es where fs: "fs = Dir r w s es" by (cases fs) auto
  show ?case
  proof (cases q)
    case Nil
    then show ?thesis using fs by simp
  next
    case (Cons y ys)
    then show ?thesis using fs by (auto simp: kind_Cons update_conv')
  qed
next
  case (Cons x xs)
  then obtain r w s es c where fs: "fs = Dir r w s es" and c: "map_of es x = Some c"
    and k: "kind c xs = IsDir"
    by (cases fs) (auto simp: kind_Cons split: option.splits)
  show ?case
  proof (cases q)
    case Nil
    then show ?thesis using fs c by simp
  next
    case q: (Cons y ys)
    show ?thesis
    proof (cases "y = x")
      case True
      then show ?thesis using fs c q Cons.IH[OF k, of ys] by (simp add: kind_Cons update_conv')
    next
      case False
      then show ?thesis using fs c q by (simp add: kind_Cons update_conv')
    qed
  qed
qed


text \<open>A path that is neither above nor below the entry leads to what it led to.\<close>

lemma lookup_modify_update:
  "\<not> prefix q (p @ [n]) \<Longrightarrow> \<not> prefix (p @ [n]) q \<Longrightarrow>
   lookup (modify_dir p (AList.update n v) fs) q = lookup fs q"
proof (induction p arbitrary: fs q)
  case Nil
  show ?case
  proof (cases fs)
    case (File r w c)
    then show ?thesis by simp
  next
    case (Dir r w s es)
    then show ?thesis using Nil by (cases q) (auto simp: update_conv')
  qed
next
  case (Cons x xs)
  show ?case
  proof (cases fs)
    case (File r w c)
    then show ?thesis by simp
  next
    case (Dir r w s es)
    show ?thesis
    proof (cases q)
      case Nil
      then show ?thesis using Cons.prems by simp
    next
      case q: (Cons y ys)
      show ?thesis
      proof (cases "map_of es x")
        case None
        then show ?thesis using Dir by simp
      next
        case (Some c)
        show ?thesis
        proof (cases "y = x")
          case True
          then have "\<not> prefix ys (xs @ [n])" "\<not> prefix (xs @ [n]) ys"
            using Cons.prems q by simp_all
          then show ?thesis
            using Dir q Some True Cons.IH[of ys c] by (simp add: update_conv')
        next
          case False
          then show ?thesis using Dir q Some by (simp add: update_conv')
        qed
      qed
    qed
  qed
qed


subsection \<open>Directories that can be listed and searched\<close>

fun all_open :: "node \<Rightarrow> bool" where
  "all_open (File r w c) = True"
| "all_open (Dir r w s es) = (r \<and> s \<and> (\<forall>e \<in> set es. all_open (snd e)))"

lemma all_open_map_of: "all_open (Dir r w s es) \<Longrightarrow> map_of es x = Some c \<Longrightarrow> all_open c"
proof -
  assume a: "all_open (Dir r w s es)" and m: "map_of es x = Some c"
  have "(x, c) \<in> set es" using m by (rule map_of_SomeD)
  then show ?thesis using a by force
qed

lemma all_open_lookup: "all_open fs \<Longrightarrow> lookup fs p = Some n \<Longrightarrow> all_open n"
proof (induction fs p rule: lookup.induct)
  case (1 n)
  then show ?case by simp
next
  case (2 r w c x xs)
  then show ?case by simp
next
  case (3 r w s es x xs)
  show ?case
  proof (cases "map_of es x")
    case None
    then show ?thesis using 3(3) by simp
  next
    case (Some c)
    then show ?thesis using 3(1)[OF Some] all_open_map_of[OF 3(2) Some] 3(3) by simp
  qed
qed

lemma resolve_open:
  "all_open fs \<Longrightarrow> lookup fs p = Some n \<Longrightarrow> resolve fs p = Inr n"
proof (induction fs p rule: resolve.induct)
  case (1 n)
  then show ?case by simp
next
  case (2 r w c x xs)
  then show ?case by simp
next
  case (3 r w s es x xs)
  show ?case
  proof (cases "map_of es x")
    case None
    then show ?thesis using 3(3) by simp
  next
    case (Some c)
    have "\<not> \<not> s" using 3(2) by simp
    then show ?thesis using 3(1)[OF _ Some] all_open_map_of[OF 3(2) Some] 3(3) Some by simp
  qed
qed

lemma resolve_Inl_missing: "all_open fs \<Longrightarrow> resolve fs p = Inl e \<Longrightarrow> kind fs p = Missing"
  using resolve_open[of fs p] by (cases "lookup fs p") (auto simp: kind_def)

lemma path_exists_open: "all_open fs \<Longrightarrow> path_exists fs p \<longleftrightarrow> kind fs p \<noteq> Missing"
  using resolve_open[of fs p] path_exists_kind[of fs p]
  by (cases "lookup fs p") (auto simp: path_exists_def kind_def)

lemma path_isdir_open: "all_open fs \<Longrightarrow> path_isdir fs p \<longleftrightarrow> kind fs p = IsDir"
  using resolve_open[of fs p] path_isdir_kind[of fs p]
  by (cases "lookup fs p") (auto simp: path_isdir_def kind_def split: node.splits)

lemma all_open_update:
  "all_open (Dir r w s es) \<Longrightarrow> all_open v \<Longrightarrow> all_open (Dir r w s (AList.update x v es))"
  by (induction es) auto

lemma all_open_delete:
  "all_open (Dir r w s es) \<Longrightarrow> all_open (Dir r w s (AList.delete x es))"
  by (induction es) auto

lemma all_open_modify_update:
  "all_open fs \<Longrightarrow> all_open v \<Longrightarrow> all_open (modify_dir p (AList.update n v) fs)"
proof (induction p "AList.update n v" fs rule: modify_dir.induct)
  case (1 p r w c)
  then show ?case by simp
next
  case (2 r w s es)
  then show ?case using all_open_update[of r w s es v n] by simp
next
  case (3 x xs r w s es)
  show ?case
  proof (cases "map_of es x")
    case None
    then show ?thesis using 3(2) by simp
  next
    case (Some c)
    have "all_open c" using all_open_map_of[OF 3(2) Some] .
    then have "all_open (modify_dir xs (AList.update n v) c)" using 3(1)[OF Some] 3(3) by simp
    then show ?thesis
      using Some all_open_update[OF 3(2), of "modify_dir xs (AList.update n v) c" x] by simp
  qed
qed

lemma all_open_modify_delete:
  "all_open fs \<Longrightarrow> all_open (modify_dir p (AList.delete n) fs)"
proof (induction p "AList.delete n :: (name \<times> node) list \<Rightarrow> (name \<times> node) list" fs
       rule: modify_dir.induct)
  case (1 p r w c)
  then show ?case by simp
next
  case (2 r w s es)
  then show ?case using all_open_delete[of r w s es n] by simp
next
  case (3 x xs r w s es)
  show ?case
  proof (cases "map_of es x")
    case None
    then show ?thesis using 3(2) by simp
  next
    case (Some c)
    have "all_open c" using all_open_map_of[OF 3(2) Some] .
    then have "all_open (modify_dir xs (AList.delete n) c)" using 3(1)[OF Some] by simp
    then show ?thesis
      using Some all_open_update[OF 3(2), of "modify_dir xs (AList.delete n) c" x] by simp
  qed
qed

subsection \<open>What each call does to a path\<close>

lemma kind_Missing_lookup: "kind fs p = Missing \<longleftrightarrow> lookup fs p = None"
  by (auto simp: kind_def split: option.splits node.splits)

lemma lookup_below_missing:
  "kind fs p \<noteq> IsDir \<Longrightarrow> strict_prefix p q \<Longrightarrow> lookup fs q = None"
proof -
  assume a: "kind fs p \<noteq> IsDir" and b: "strict_prefix p q"
  from b obtain zs where "q = p @ zs" "zs \<noteq> []" by (auto simp: strict_prefix_def prefix_def)
  then have "kind fs q = Missing" using kind_missing_below[OF a] by simp
  then show ?thesis by (simp add: kind_Missing_lookup)
qed

lemma mkdir_kind:
  assumes "mkdir fs p = Inr fs'"
  shows "kind fs p = Missing" and "kind fs' q = (if q = p then IsDir else kind fs q)"
proof -
  from assms have ne: "p \<noteq> []" by (auto simp: mkdir_def)
  from assms ne obtain r w s es where res: "resolve fs (dirname p) = Inr (Dir r w s es)"
    and miss: "map_of es (last p) = None"
    and fs': "fs' = modify_dir (dirname p) (AList.update (last p) (Dir True True True [])) fs"
    by (auto simp: mkdir_def split: sum.splits option.splits node.splits if_splits)
  have par: "lookup fs (dirname p) = Some (Dir r w s es)" using res by (rule resolve_lookup)
  have pk: "kind fs (dirname p) = IsDir" using par by (simp add: lookup_kind_simps)
  show m: "kind fs p = Missing"
    using kind_child[OF par, of "last p"] miss path_split[OF ne] by simp
  have "kind fs' q = (if prefix p q then kind (Dir True True True []) (drop (length p) q) else kind fs q)"
    using kind_modify_update[OF pk, of "last p" "Dir True True True []" q] path_split[OF ne] fs'
    by (simp add: dirname_def ne)
  moreover have "prefix p q \<Longrightarrow> q \<noteq> p \<Longrightarrow> kind fs q = Missing"
    using m kind_missing_below[of fs p] by (auto simp: prefix_def)
  ultimately show "kind fs' q = (if q = p then IsDir else kind fs q)"
    by (cases "prefix p q") (auto simp: kind_Dir_empty prefix_def)
qed

lemma mkdir_lookup:
  assumes "mkdir fs p = Inr fs'" "\<not> prefix q p"
  shows "lookup fs' q = lookup fs q"
proof (cases "prefix p q")
  case True
  then have sp: "strict_prefix p q" using assms(2) by (auto simp: strict_prefix_def)
  have "kind fs p \<noteq> IsDir" using mkdir_kind(1)[OF assms(1)] by simp
  then have a: "lookup fs q = None" using lookup_below_missing sp by blast
  have "q \<noteq> p" using assms(2) by auto
  then have "kind fs' q = kind fs q" using mkdir_kind(2)[OF assms(1), of q] by simp
  then show ?thesis using a kind_Missing_lookup by metis
next
  case False
  from assms have ne: "p \<noteq> []" by (auto simp: mkdir_def)
  from assms ne have fs':
    "fs' = modify_dir (dirname p) (AList.update (last p) (Dir True True True [])) fs"
    by (auto simp: mkdir_def split: sum.splits option.splits node.splits if_splits)
  show ?thesis
    using lookup_modify_update[of q "dirname p" "last p"] False assms(2) path_split[OF ne] fs'
    by simp
qed

lemma mkdir_open:
  "all_open fs \<Longrightarrow> mkdir fs p = Inr fs' \<Longrightarrow> all_open fs'"
  by (auto simp: mkdir_def all_open_modify_update
           split: sum.splits option.splits node.splits if_splits)



lemma write_file_open:
  "all_open fs \<Longrightarrow> write_file fs p r w c = Inr fs' \<Longrightarrow> all_open fs'"
  by (auto simp: write_file_def all_open_modify_update
           split: sum.splits option.splits node.splits if_splits)




lemma os_remove_open:
  "all_open fs \<Longrightarrow> os_remove fs p = Inr fs' \<Longrightarrow> all_open fs'"
  by (auto simp: os_remove_def all_open_modify_delete
           split: sum.splits option.splits node.splits if_splits)

lemma open_rb_kind: "open_rb fs p = Inr c \<Longrightarrow> kind fs p = IsFile True c"
  by (auto simp: open_rb_def kind_def dest: resolve_lookup
           split: sum.splits node.splits if_splits)

lemma open_rb_open: "all_open fs \<Longrightarrow> kind fs p = IsFile True c \<Longrightarrow> open_rb fs p = Inr c"
  using resolve_open[of fs p]
  by (cases "lookup fs p") (auto simp: open_rb_def kind_def split: node.splits)



lemma copy2_open: "all_open fs \<Longrightarrow> copy2 fs src dst = Inr fs' \<Longrightarrow> all_open fs'"
  by (auto simp: copy2_def Let_def dest: write_file_open
           split: sum.splits node.splits if_splits)

subsection \<open>\<open>makedirs\<close>\<close>

lemma makedirs_leaf:
  assumes "(case mkdir fs1 p of
              Inr fs2 \<Rightarrow> Inr fs2
            | Inl e \<Rightarrow> if path_isdir fs1 p then Inr fs1 else Inl e) = Inr fs'"
  shows "kind fs' p = IsDir"
    and "kind fs' q = (if q = p \<and> kind fs1 q = Missing then IsDir else kind fs1 q)"
    and "\<not> prefix q p \<Longrightarrow> lookup fs' q = lookup fs1 q"
    and "all_open fs1 \<Longrightarrow> all_open fs'"
proof -
  show "kind fs' p = IsDir"
    using assms mkdir_kind(2)[of fs1 p _ p]
    by (auto dest: path_isdir_kind split: sum.splits if_splits)
  show "kind fs' q = (if q = p \<and> kind fs1 q = Missing then IsDir else kind fs1 q)"
    using assms mkdir_kind(1)[of fs1 p] mkdir_kind(2)[of fs1 p _ q]
    by (auto dest: path_isdir_kind split: sum.splits if_splits)
  show "\<not> prefix q p \<Longrightarrow> lookup fs' q = lookup fs1 q"
    using assms mkdir_lookup[of fs1 p _ q]
    by (auto split: sum.splits if_splits)
  show "all_open fs1 \<Longrightarrow> all_open fs'"
    using assms mkdir_open[of fs1 p]
    by (auto split: sum.splits if_splits)
qed


lemma makedirs_cases:
  assumes "makedirs fs p = Inr fs'"
  obtains fs1 where
    "(case mkdir fs1 p of
        Inr fs2 \<Rightarrow> Inr fs2
      | Inl e \<Rightarrow> if path_isdir fs1 p then Inr fs1 else Inl e) = Inr fs'"
    and "fs1 = fs \<or> (p \<noteq> [] \<and> \<not> path_exists fs (dirname p) \<and> makedirs fs (dirname p) = Inr fs1)"
proof (cases "p \<noteq> [] \<and> \<not> path_exists fs (dirname p)")
  case False
  then have "(case mkdir fs p of
              Inr fs2 \<Rightarrow> Inr fs2
            | Inl e \<Rightarrow> if path_isdir fs p then Inr fs else Inl e) = Inr fs'"
    using assms by (subst (asm) makedirs.simps) auto
  then show ?thesis using that by blast
next
  case True
  show ?thesis
  proof (cases "makedirs fs (dirname p)")
    case (Inl e)
    then have "(case mkdir fs p of
              Inr fs2 \<Rightarrow> Inr fs2
            | Inl e \<Rightarrow> if path_isdir fs p then Inr fs else Inl e) = Inr fs'"
      using assms True by (subst (asm) makedirs.simps) (auto split: if_splits)
    then show ?thesis using that by blast
  next
    case (Inr fs1)
    then have "(case mkdir fs1 p of
              Inr fs2 \<Rightarrow> Inr fs2
            | Inl e \<Rightarrow> if path_isdir fs1 p then Inr fs1 else Inl e) = Inr fs'"
      using assms True by (subst (asm) makedirs.simps) auto
    then show ?thesis using that Inr True by blast
  qed
qed


lemma makedirs_prefix_dir:
  assumes "makedirs fs p = Inr fs'" "prefix q p"
  shows "kind fs' q = IsDir"
proof -
  from assms(1) obtain fs1 where
    leaf: "(case mkdir fs1 p of
        Inr fs2 \<Rightarrow> Inr fs2
      | Inl e \<Rightarrow> if path_isdir fs1 p then Inr fs1 else Inl e) = Inr fs'"
    by (rule makedirs_cases)
  have "kind fs' p = IsDir" by (rule makedirs_leaf(1)[OF leaf])
  then show ?thesis
    using assms(2) kind_dir_prefix[of fs' p q] by (cases "q = p") (auto simp: strict_prefix_def)
qed


lemma makedirs_open:
  "makedirs fs p = Inr fs' \<Longrightarrow> all_open fs \<Longrightarrow> all_open fs'"
proof (induction fs p arbitrary: fs' rule: makedirs.induct)
  case (1 fs p)
  from "1.prems"(1) obtain fs1 where
    leaf: "(case mkdir fs1 p of
        Inr fs2 \<Rightarrow> Inr fs2
      | Inl e \<Rightarrow> if path_isdir fs1 p then Inr fs1 else Inl e) = Inr fs'"
    and fs1: "fs1 = fs \<or> (p \<noteq> [] \<and> \<not> path_exists fs (dirname p) \<and> makedirs fs (dirname p) = Inr fs1)"
    by (rule makedirs_cases)
  have "all_open fs1"
  proof (cases "fs1 = fs")
    case True
    then show ?thesis using "1.prems"(2) by simp
  next
    case False
    then have c: "p \<noteq> [] \<and> \<not> path_exists fs (dirname p)"
      and mk: "makedirs fs (dirname p) = Inr fs1" using fs1 by auto
    show ?thesis using "1.IH"[OF c mk "1.prems"(2)] .
  qed
  then show ?case using makedirs_leaf(4)[OF leaf] by simp
qed

subsection \<open>\<open>rmtree\<close>\<close>

text \<open>What a deletion leaves of a tree: each path holds what it held, or nothing.\<close>

definition withered :: "node \<Rightarrow> node \<Rightarrow> bool" where
  "withered c' c = (\<forall>q. kind c' q = kind c q \<or> kind c' q = Missing)"

lemma withered_refl [simp]: "withered c c"
  by (simp add: withered_def)








subsection \<open>Listings and digests\<close>

lemma entry_isdir_kind: "entry_isdir es n \<longleftrightarrow> kind (Dir r w s es) [n] = IsDir"
  by (auto simp: entry_isdir_def kind_Cons kind_def split: option.splits node.splits)

lemma scandir_Inr:
  assumes "scandir fs p = Inr (dirs, files)"
  shows "kind fs p = IsDir"
    and "n \<in> set dirs \<longleftrightarrow> kind fs (p @ [n]) = IsDir"
    and "n \<in> set files \<longleftrightarrow> (\<exists>r c. kind fs (p @ [n]) = IsFile r c)"
    and "distinct (files @ dirs)"
proof -
  from assms obtain r w s es where res: "resolve fs p = Inr (Dir r w s es)"
    and dirs: "dirs = filter (entry_isdir es) (remdups (map fst es))"
    and files: "files = filter (\<lambda>n. \<not> entry_isdir es n) (remdups (map fst es))"
    by (auto simp: scandir_def split: sum.splits node.splits if_splits)
  have es: "lookup fs p = Some (Dir r w s es)" using res by (rule resolve_lookup)
  show "kind fs p = IsDir" using es by (simp add: lookup_kind_simps)
  have k: "kind fs (p @ [n]) = kind (Dir r w s es) [n]" using es by (simp add: kind_append)
  have "kind (Dir r w s es) [n] \<noteq> Missing \<longleftrightarrow> map_of es n \<noteq> None"
    by (auto simp: kind_Cons kind_def split: option.splits node.splits)
  then have key: "n \<in> fst ` set es \<longleftrightarrow> kind (Dir r w s es) [n] \<noteq> Missing"
    by (simp add: map_of_eq_None_iff)
  show "n \<in> set dirs \<longleftrightarrow> kind fs (p @ [n]) = IsDir"
    using key by (auto simp: dirs k entry_isdir_kind[of es n r w s])
  show "n \<in> set files \<longleftrightarrow> (\<exists>r c. kind fs (p @ [n]) = IsFile r c)"
    using key by (cases "kind (Dir r w s es) [n]") (auto simp: files k entry_isdir_kind[of es n r w s])
  show "distinct (files @ dirs)" by (auto simp: dirs files)
qed

lemma scandir_Inl: "all_open fs \<Longrightarrow> scandir fs p = Inl e \<Longrightarrow> kind fs p \<noteq> IsDir"
proof
  assume o: "all_open fs" and sc: "scandir fs p = Inl e" and k: "kind fs p = IsDir"
  then obtain r w s es where lk: "lookup fs p = Some (Dir r w s es)"
    by (auto simp: kind_def split: option.splits node.splits)
  have "resolve fs p = Inr (Dir r w s es)" using resolve_open[OF o lk] .
  moreover have "r" using all_open_lookup[OF o lk] by simp
  ultimately show False using sc by (simp add: scandir_def)
qed

definition digest :: "'h hasher \<Rightarrow> byte list \<Rightarrow> string" where
  "digest H c = h_hexdigest H (read_chunks (h_update H) (h_new H) c)"

lemma calculate_md5_file:
  "all_open (tree st) \<Longrightarrow> kind (tree st) p = IsFile True c \<Longrightarrow>
   calculate_md5 H p st = (Inr (Some (digest H c)), st)"
  by (simp add: calculate_md5_def calculate_md5_try_def open_rb_open digest_def)

lemma calculate_md5_other:
  assumes "\<forall>c. kind (tree st) p \<noteq> IsFile True c"
  shows "\<exists>e. calculate_md5 H p st = (Inr None, log_error (Failed_to_calculate_MD5 p e) st)"
proof (cases "open_rb (tree st) p")
  case (Inr c)
  then show ?thesis using open_rb_kind[OF Inr] assms by simp
next
  case (Inl e)
  then have "is_Exception e" using open_rb_OSError is_OSError_Exception by blast
  then show ?thesis using Inl by (auto simp: calculate_md5_def calculate_md5_try_def)
qed

lemma calculate_md5_cases:
  "(\<exists>c. kind (tree st) p = IsFile True c \<and> calculate_md5 H p st = (Inr (Some (digest H c)), st))
   \<or> (\<exists>e. calculate_md5 H p st = (Inr None, log_error (Failed_to_calculate_MD5 p e) st))"
proof (cases "open_rb (tree st) p")
  case (Inr c)
  then show ?thesis using open_rb_kind[OF Inr]
    by (auto simp: calculate_md5_def calculate_md5_try_def digest_def)
next
  case (Inl e)
  then have "is_Exception e" using open_rb_OSError is_OSError_Exception by blast
  then show ?thesis using Inl by (auto simp: calculate_md5_def calculate_md5_try_def)
qed

section \<open>Where a call writes\<close>

text \<open>
  A path is outside a root when it is neither the root, nor below it, nor above it.
  A step stays inside a root when it leaves every path outside the root as it is, and
  above the root does nothing but create missing directories.
\<close>

definition outside :: "path \<Rightarrow> path \<Rightarrow> bool" where
  "outside r q = (\<not> prefix q r \<and> \<not> prefix r q)"

definition stays_inside :: "path \<Rightarrow> node \<Rightarrow> node \<Rightarrow> bool" where
  "stays_inside r fs fs' =
     (\<forall>q. (prefix r q \<or> kind fs' q = kind fs q
             \<or> (strict_prefix q r \<and> kind fs q = Missing \<and> kind fs' q = IsDir))
          \<and> (outside r q \<longrightarrow> lookup fs' q = lookup fs q))"

lemma stays_inside_refl [simp]: "stays_inside r fs fs"
  by (simp add: stays_inside_def)









subsection \<open>The first pass\<close>















subsection \<open>The second pass\<close>




subsection \<open>One call\<close>





definition frame_example :: state where
  "frame_example =
     fresh (folder [(''home'',
              folder [(''data'', folder [(''a.txt'', plain_file [118, 50]),
                                         (''sub'', folder [(''b.txt'', File True False [])])]),
                      (''notes.txt'', plain_file [110])]),
             (''mnt'',
              folder [(''old.txt'', plain_file [111])])])"


lemma frame_example_run:
  "sync_folders plain_hasher [''home'', ''data''] [''mnt'', ''backup''] frame_example
   = Some (Inr None,
      \<lparr>tree = folder [(''home'',
              folder [(''data'', folder [(''a.txt'', plain_file [118, 50]),
                                         (''sub'', folder [(''b.txt'', File True False [])])]),
                      (''notes.txt'', plain_file [110])]),
             (''mnt'',
              folder [(''old.txt'', plain_file [111]),
                      (''backup'', folder [(''sub'', folder [(''b.txt'', File True False [])]),
                                           (''a.txt'', plain_file [118, 50])])])],
       log_records =
         [(INFO, Starting_synchronization),
          (INFO, Created_directory ''replica'' [''mnt'', ''backup'']),
          (INFO, Copied_file [''home'', ''data'', ''a.txt''] [''mnt'', ''backup'', ''a.txt'']),
          (INFO, Copied_file [''home'', ''data'', ''sub'', ''b.txt'']
                   [''mnt'', ''backup'', ''sub'', ''b.txt'']),
          (INFO, Synchronization_completed)],
       changes_made = True\<rparr>)"
  unfolding frame_example_def by code_simp

end
